theory Spec2Isabelle
  imports Main
begin

section \<open>Python values used by widget.py\<close>

text \<open>
  Exceptions are values. Only subclasses of \<open>Exception\<close> are listed: they are what the
  handlers \<open>except Exception\<close> of the source catch.
\<close>

datatype exn =
    TimeoutExpired
  | FileNotFoundError
  | InvalidFileException
  | IndexError
  | ValueError
  | OtherException string

subsection \<open>Strings\<close>

text \<open>
  \<open>str.lower()\<close> on the ASCII letters; every other character is kept. The patterns the
  source searches for are ASCII.
\<close>

definition lower_char :: "char \<Rightarrow> char" where
  "lower_char c =
     (let n = (of_char c :: nat) in if 65 \<le> n \<and> n \<le> 90 then char_of (n + 32) else c)"

definition lower :: "string \<Rightarrow> string" where
  "lower s = map lower_char s"

text \<open>\<open>s.startswith(p)\<close> and the substring test \<open>p in s\<close>.\<close>

fun startswith :: "string \<Rightarrow> string \<Rightarrow> bool" where
  "startswith s [] = True"
| "startswith [] (p # ps) = False"
| "startswith (c # cs) (p # ps) = (c = p \<and> startswith cs ps)"

fun py_in :: "string \<Rightarrow> string \<Rightarrow> bool" where
  "py_in p [] = (p = [])"
| "py_in p (c # cs) = (startswith (c # cs) p \<or> py_in p cs)"

text \<open>\<open>sep.join(xs)\<close>.\<close>

fun join :: "string \<Rightarrow> string list \<Rightarrow> string" where
  "join sep [] = []"
| "join sep [x] = x"
| "join sep (x # y # ys) = x @ sep @ join sep (y # ys)"

subsection \<open>Integers and their decimal text\<close>

definition digit_char :: "nat \<Rightarrow> char" where
  "digit_char d = char_of (48 + d)"



function dec_nat :: "nat \<Rightarrow> string" where
  "dec_nat n = (if n < 10 then [digit_char n] else dec_nat (n div 10) @ [digit_char (n mod 10)])"
  by pat_completeness auto
termination
  by (relation "measure (\<lambda>n. n)") auto

declare dec_nat.simps [simp del]

text \<open>\<open>str(n)\<close> of an int.\<close>

definition py_str :: "int \<Rightarrow> string" where
  "py_str n = (if n < 0 then CHR ''-'' # dec_nat (nat (- n)) else dec_nat (nat n))"






subsection \<open>Dates and times\<close>

text \<open>
  \<open>datetime.date\<close> and \<open>datetime.datetime\<close> as records of their fields. The weekday is CPython's
  \<open>(toordinal() + 6) % 7\<close>, Monday being 0, with \<open>toordinal\<close> computed from the proleptic
  Gregorian calendar as the standard library does. A date that Python can build has a
  month from 1 to 12, which is what the table of days before a month covers.
\<close>

record date =
  year :: nat
  month :: nat
  day :: nat

record datetime =
  dt_date :: date
  hour :: nat
  minute :: nat
  second :: nat

definition is_leap :: "nat \<Rightarrow> bool" where
  "is_leap y = (y mod 4 = 0 \<and> (y mod 100 \<noteq> 0 \<or> y mod 400 = 0))"

definition days_before_year :: "nat \<Rightarrow> nat" where
  "days_before_year yr = (let y = yr - 1 in y * 365 + y div 4 - y div 100 + y div 400)"

definition days_before_month :: "nat \<Rightarrow> nat \<Rightarrow> nat" where
  "days_before_month yr m =
     [0, 0, 31, 59, 90, 120, 151, 181, 212, 243, 273, 304, 334] ! m
       + (if m > 2 \<and> is_leap yr then 1 else 0)"

definition toordinal :: "date \<Rightarrow> nat" where
  "toordinal d = days_before_year (year d) + days_before_month (year d) (month d) + day d"

definition weekday :: "date \<Rightarrow> nat" where
  "weekday d = (toordinal d + 6) mod 7"

definition pad2 :: "nat \<Rightarrow> string" where
  "pad2 n = (if n < 10 then CHR ''0'' # dec_nat n else dec_nat n)"

definition pad4 :: "nat \<Rightarrow> string" where
  "pad4 n = replicate (4 - length (dec_nat n)) (CHR ''0'') @ dec_nat n"

text \<open>\<open>now.strftime("%H:%M")\<close>, \<open>now.strftime("%H:%M:%S")\<close> and \<open>today.strftime("%d/%m/%Y")\<close>.\<close>

definition strftime_HM :: "datetime \<Rightarrow> string" where
  "strftime_HM now = pad2 (hour now) @ '':'' @ pad2 (minute now)"

definition strftime_dmY :: "date \<Rightarrow> string" where
  "strftime_dmY d = pad2 (day d) @ ''/'' @ pad2 (month d) @ ''/'' @ pad4 (year d)"

section \<open>Configuration\<close>

text \<open>
  The process environment is a dict of strings; \<open>os.environ.get(k)\<close> is \<open>None\<close> for an unset
  variable. \<open>TK_AVAILABLE\<close> tells whether \<open>import tkinter\<close> succeeded.
\<close>

type_synonym environ = "string \<rightharpoonup> string"

definition USE_DUMMY :: "bool \<Rightarrow> environ \<Rightarrow> bool" where
  "USE_DUMMY TK_AVAILABLE env =
     (let ENV_USE_DUMMY = env ''USE_DUMMY'';
          ENV_FORCE_REAL = env ''FORCE_REAL''
      in if TK_AVAILABLE then ENV_USE_DUMMY = Some ''1''
         else ENV_FORCE_REAL \<noteq> Some ''1'')"

definition PING_COUNT :: "environ \<Rightarrow> string" where
  "PING_COUNT env = (case env ''PING_COUNT'' of None \<Rightarrow> ''2'' | Some v \<Rightarrow> v)"

record target =
  name :: string
  host :: string

definition TARGETS :: "target list" where
  "TARGETS =
     [\<lparr>name = ''Server'', host = ''192.168.8.8''\<rparr>,
      \<lparr>name = ''Desktop'', host = ''192.168.9.1''\<rparr>,
      \<lparr>name = ''HP'', host = ''192.168.11.1''\<rparr>,
      \<lparr>name = ''Mitraskon'', host = ''mitraskon.com''\<rparr>,
      \<lparr>name = ''Mitralindo'', host = ''mitralindo.com''\<rparr>,
      \<lparr>name = ''Trekons'', host = ''trekons.com''\<rparr>]"

definition REKAP_ORDER :: "string list" where
  "REKAP_ORDER = [''Server'', ''Desktop'', ''HP'', ''Mitraskon'', ''Mitralindo'', ''Trekons'']"

section \<open>The probe: check_target\<close>

text \<open>
  \<open>subprocess.run\<close> either raises (a timeout after 10 s, a missing executable, any other
  error) or completes with a return code and the captured standard output. What it does for
  a given command line is the environment's choice, so the probe takes it as a function.
\<close>

datatype run_outcome = Completed int "string option" | Raised exn

type_synonym subprocess = "string list \<Rightarrow> run_outcome"

definition ping_argv :: "bool \<Rightarrow> string \<Rightarrow> string \<Rightarrow> string list" where
  "ping_argv windows count h = [''ping'', if windows then ''-n'' else ''-c'', count, h]"

text \<open>The body of the \<open>try\<close> block: \<open>Inl\<close> is an exception leaving the block.\<close>

definition check_target_try :: "bool \<Rightarrow> string \<Rightarrow> subprocess \<Rightarrow> string \<Rightarrow> exn + string" where
  "check_target_try windows count run h =
     (case run (ping_argv windows count h) of
        Raised e \<Rightarrow> Inl e
      | Completed returncode stdout \<Rightarrow>
          let out = lower (case stdout of None \<Rightarrow> [] | Some s \<Rightarrow> s) in
          if returncode \<noteq> 0 \<or> py_in ''unreachable'' out then Inr ''DOWN''
          else if py_in ''lost = 0'' out \<or> py_in ''0% packet loss'' out then Inr ''UP''
          else if py_in ''lost ='' out \<or> py_in ''packet loss'' out then Inr ''WARNING''
          else Inr ''DOWN'')"

text \<open>The whole function: \<open>except Exception: return "DOWN"\<close> around the body.\<close>

definition check_target :: "bool \<Rightarrow> string \<Rightarrow> subprocess \<Rightarrow> string \<Rightarrow> exn + string" where
  "check_target windows count run h =
     (case check_target_try windows count run h of
        Inl e \<Rightarrow> Inr ''DOWN''
      | Inr status \<Rightarrow> Inr status)"

text \<open>The text the classification looks at: \<open>(result.stdout or "").lower()\<close>.\<close>

definition out_of :: "string option \<Rightarrow> string" where
  "out_of stdout = lower (case stdout of None \<Rightarrow> [] | Some s \<Rightarrow> s)"

section \<open>The report file\<close>

text \<open>
  A cell of a worksheet holds \<open>None\<close>, a str, an int or a bool (floats are left out). The
  active sheet of a workbook is the list of its rows, each the list of its cells from column
  A on; rows may differ in length. The derived sheet "Grafik" that write_rekap refreshes
  lives beside the active sheet and never changes it, so it is not part of the model.
  A workbook file that openpyxl cannot load is \<open>Corrupt\<close>. The CSV file is the list of its
  records as csv.reader returns them. Opening, saving and appending to files succeed.
\<close>

datatype cell = CNone | CStr string | CInt int | CBool bool

type_synonym sheet = "cell list list"

datatype xfile = Corrupt | Book sheet

record files =
  xlsx_file :: "xfile option"
  csv_file :: "string list list option"

definition load_workbook :: "xfile option \<Rightarrow> exn + sheet" where
  "load_workbook x =
     (case x of
        None \<Rightarrow> Inl FileNotFoundError
      | Some Corrupt \<Rightarrow> Inl InvalidFileException
      | Some (Book ws) \<Rightarrow> Inr ws)"

text \<open>
  The worksheet interface used by the source: \<open>max_row\<close> and \<open>max_column\<close> (both at least
  1), \<open>ws.cell(r, c).value\<close>, \<open>ws.cell(r, c, v)\<close>, \<open>ws.iter_rows(values_only=True)\<close>, which
  fills every row with \<open>None\<close> up to \<open>max_column\<close>, and \<open>ws.append\<close>. Rows and columns count
  from 1.
\<close>

definition max_row :: "sheet \<Rightarrow> nat" where
  "max_row ws = max 1 (length ws)"

definition max_column :: "sheet \<Rightarrow> nat" where
  "max_column ws = max 1 (foldr (\<lambda>r m. max (length r) m) ws 0)"

definition cell_value :: "sheet \<Rightarrow> nat \<Rightarrow> nat \<Rightarrow> cell" where
  "cell_value ws r c =
     (if 1 \<le> r \<and> r \<le> length ws \<and> 1 \<le> c \<and> c \<le> length (ws ! (r - 1))
      then ws ! (r - 1) ! (c - 1) else CNone)"

definition pad :: "nat \<Rightarrow> 'a \<Rightarrow> 'a list \<Rightarrow> 'a list" where
  "pad n x xs = xs @ replicate (n - length xs) x"

definition set_cell :: "sheet \<Rightarrow> nat \<Rightarrow> nat \<Rightarrow> cell \<Rightarrow> sheet" where
  "set_cell ws r c v =
     (let rows = pad r [] ws;
          row = pad c CNone (rows ! (r - 1))
      in rows[r - 1 := row[c - 1 := v]])"


text \<open>\<open>str(h or "")\<close>, \<open>str(v)\<close> and the text csv.writer writes for a value.\<close>

definition str_or_empty :: "cell \<Rightarrow> string" where
  "str_or_empty h =
     (case h of
        CNone \<Rightarrow> []
      | CStr s \<Rightarrow> s
      | CInt n \<Rightarrow> if n = 0 then [] else py_str n
      | CBool b \<Rightarrow> if b then ''True'' else [])"


definition csv_text :: "cell \<Rightarrow> string" where
  "csv_text v =
     (case v of
        CNone \<Rightarrow> []
      | CStr s \<Rightarrow> s
      | CInt n \<Rightarrow> py_str n
      | CBool b \<Rightarrow> if b then ''True'' else ''False'')"

text \<open>
  The header written to a new file:
  \<open>["Tanggal"] + [f"Down {n}" ...] + [f"JamDown {n}" ...]\<close>.
\<close>

definition header_row :: "cell list" where
  "header_row =
     [CStr ''Tanggal''] @ map (\<lambda>n. CStr (''Down '' @ n)) REKAP_ORDER
       @ map (\<lambda>n. CStr (''JamDown '' @ n)) REKAP_ORDER"

subsection \<open>ensure_workbook\<close>

text \<open>The loop that adds the JamDown columns to an old header, each after the last column.\<close>

definition add_jamdown_headers :: "sheet \<Rightarrow> sheet" where
  "add_jamdown_headers ws =
     fold (\<lambda>n w. set_cell w 1 (max_column w + 1) (CStr (''JamDown '' @ n))) REKAP_ORDER ws"

text \<open>
  The \<open>try\<close> block of the Excel branch: \<open>Inl\<close> is an exception, \<open>Inr None\<close> is leaving the block
  without returning, \<open>Inr (Some r)\<close> is \<open>return r\<close>.
\<close>

definition ensure_workbook_try :: "files \<Rightarrow> exn + (files \<times> string) option" where
  "ensure_workbook_try f =
     (if xlsx_file f \<noteq> None then
        (case load_workbook (xlsx_file f) of
           Inl e \<Rightarrow> Inl e
         | Inr ws \<Rightarrow>
             if max_row ws \<ge> 1 \<and> cell_value ws 1 1 = CStr ''Tanggal'' then
               (let headers = map (cell_value ws 1) [1 ..< max_column ws + 1] in
                if \<not> list_ex (\<lambda>h. startswith (str_or_empty h) ''JamDown '') headers
                then Inr (Some (f\<lparr>xlsx_file := Some (Book (add_jamdown_headers ws))\<rparr>, ''xlsx''))
                else Inr (Some (f, ''xlsx'')))
             else Inr None)
      else Inr None)"

text \<open>
  \<open>EXCEL_AVAILABLE\<close> tells whether openpyxl could be imported. The function returns the mode;
  the file system after the call comes first in the pair.
\<close>

definition ensure_workbook :: "bool \<Rightarrow> files \<Rightarrow> files \<times> string" where
  "ensure_workbook EXCEL_AVAILABLE f =
     (if EXCEL_AVAILABLE then
        (case ensure_workbook_try f of
           Inr (Some r) \<Rightarrow> r
         | _ \<Rightarrow> (f\<lparr>xlsx_file := Some (Book [header_row])\<rparr>, ''xlsx''))
      else
        (if csv_file f = None then f\<lparr>csv_file := Some [map csv_text header_row]\<rparr> else f,
         ''csv''))"

subsection \<open>write_rekap\<close>

text \<open>
  The row. \<open>jam_map or {...}\<close> replaces \<open>None\<close> and the empty dict by a dict of empty lists; an
  empty dict gives the same cells as that default, since \<open>jam_map.get(name, [])\<close> is then
  \<open>[]\<close> for every name.
\<close>

definition rekap_row ::
  "date \<Rightarrow> (string \<rightharpoonup> int) \<Rightarrow> (string \<rightharpoonup> string list) option \<Rightarrow> cell list" where
  "rekap_row today counters jam_map =
     (let tanggal_str = strftime_dmY today;
          jam = (case jam_map of None \<Rightarrow> (\<lambda>n. Some []) | Some j \<Rightarrow> j);
          jam_joined = map (\<lambda>n. join '';'' (case jam n of None \<Rightarrow> [] | Some ts \<Rightarrow> ts)) REKAP_ORDER
      in [CStr tanggal_str]
           @ map (\<lambda>n. CInt (case counters n of None \<Rightarrow> 0 | Some c \<Rightarrow> c)) REKAP_ORDER
           @ map CStr jam_joined)"

text \<open>\<open>open(REKAP_FILE_CSV, "a")\<close> and \<open>writerow(row)\<close>: the file is created when missing.\<close>

definition csv_append :: "files \<Rightarrow> cell list \<Rightarrow> files" where
  "csv_append f row =
     f\<lparr>csv_file := Some ((case csv_file f of None \<Rightarrow> [] | Some rows \<Rightarrow> rows) @ [map csv_text row])\<rparr>"

definition write_rekap ::
  "bool \<Rightarrow> date \<Rightarrow> (string \<rightharpoonup> int) \<Rightarrow> (string \<rightharpoonup> string list) option \<Rightarrow> files \<Rightarrow> files" where
  "write_rekap EXCEL_AVAILABLE today counters jam_map f =
     (let (f1, mode) = ensure_workbook EXCEL_AVAILABLE f;
          row = rekap_row today counters jam_map
      in if mode = ''xlsx'' then
           (case load_workbook (xlsx_file f1) of
              Inr ws \<Rightarrow> f1\<lparr>xlsx_file := Some (Book (ws @ [row]))\<rparr>
            | Inl e \<Rightarrow> csv_append f1 row)
         else csv_append f1 row)"

subsection \<open>read_last_7_days\<close>











section \<open>The monitor\<close>

text \<open>
  The state of MonitorApp and of HeadlessPingMonitor that the claims are about. Each of the
  four dicts is created in \<open>__init__\<close> with the names of TARGETS as its keys, and no key is
  ever added or removed; it is a function on names, and a loop over the keys of such a dict
  is a loop over the names of TARGETS.
\<close>

record monitor =
  last_status :: "string \<Rightarrow> string"
  incident_open :: "string \<Rightarrow> bool"
  down_counter :: "string \<Rightarrow> int"
  down_times :: "string \<Rightarrow> string list"
  last_rekap_day :: "date option"

definition target_names :: "string list" where
  "target_names = map name TARGETS"

definition init_monitor :: monitor where
  "init_monitor =
     \<lparr>last_status = (\<lambda>n. ''INIT''),
      incident_open = (\<lambda>n. False),
      down_counter = (\<lambda>n. 0),
      down_times = (\<lambda>n. []),
      last_rekap_day = None\<rparr>"

text \<open>The dict handed to write_rekap: the entries of the names of TARGETS.\<close>

definition as_dict :: "string list \<Rightarrow> (string \<Rightarrow> 'v) \<Rightarrow> (string \<rightharpoonup> 'v)" where
  "as_dict keys d = (\<lambda>k. if k \<in> set keys then Some (d k) else None)"

subsection \<open>The tracker\<close>

text \<open>
  The body of the loop over the targets in \<open>tick\<close> and in \<open>HeadlessPingMonitor.run\<close>, for
  the target \<open>nm\<close> with the new status \<open>st\<close>.
\<close>

definition track :: "datetime \<Rightarrow> string \<Rightarrow> string \<Rightarrow> monitor \<Rightarrow> monitor" where
  "track now nm st m =
     (let before = last_status m nm;
          m1 = m\<lparr>last_status := (last_status m)(nm := st)\<rparr>;
          m2 = (if before \<noteq> ''DOWN'' \<and> st = ''DOWN'' \<and> \<not> incident_open m1 nm
                then m1\<lparr>incident_open := (incident_open m1)(nm := True),
                        down_counter := (down_counter m1)(nm := down_counter m1 nm + 1),
                        down_times := (down_times m1)(nm := down_times m1 nm @ [strftime_HM now])\<rparr>
                else m1)
      in if incident_open m2 nm \<and> st \<noteq> ''DOWN''
         then m2\<lparr>incident_open := (incident_open m2)(nm := False)\<rparr>
         else m2)"

text \<open>\<open>results.get(name, "DOWN")\<close>.\<close>

definition results_get :: "(string \<rightharpoonup> string) \<Rightarrow> string \<Rightarrow> string" where
  "results_get results nm = (case results nm of None \<Rightarrow> ''DOWN'' | Some st \<Rightarrow> st)"

text \<open>The loop of \<open>MonitorApp.tick\<close> over \<open>self.rows\<close>, whose keys are the names of TARGETS.\<close>

definition tick_update :: "datetime \<Rightarrow> (string \<rightharpoonup> string) \<Rightarrow> monitor \<Rightarrow> monitor" where
  "tick_update now results m =
     fold (\<lambda>nm. track now nm (results_get results nm)) target_names m"

text \<open>The loop of \<open>HeadlessPingMonitor.run\<close> over REKAP_ORDER.\<close>

definition headless_update :: "datetime \<Rightarrow> (string \<rightharpoonup> string) \<Rightarrow> monitor \<Rightarrow> monitor" where
  "headless_update now results m =
     fold (\<lambda>nm. track now nm (results_get results nm)) REKAP_ORDER m"

subsection \<open>Flushing\<close>

text \<open>
  The loop \<open>for k in self.down_counter: self.down_counter[k] = 0; self.down_times[k] = []\<close>
  that reset_counter, rekap_now and both schedule_rekap_if_needed run.
\<close>

definition reset_counters :: "monitor \<Rightarrow> monitor" where
  "reset_counters m =
     fold (\<lambda>k s. s\<lparr>down_counter := (down_counter s)(k := 0),
                    down_times := (down_times s)(k := [])\<rparr>) target_names m"

type_synonym world = "monitor \<times> files"

definition reset_counter :: "world \<Rightarrow> world" where
  "reset_counter w = (reset_counters (fst w), snd w)"

definition rekap_now :: "bool \<Rightarrow> datetime \<Rightarrow> world \<Rightarrow> world" where
  "rekap_now EXCEL_AVAILABLE now w =
     (let m = fst w;
          f = write_rekap EXCEL_AVAILABLE (dt_date now)
                (as_dict target_names (down_counter m))
                (Some (as_dict target_names (down_times m))) (snd w);
          m1 = reset_counters m
      in (m1\<lparr>last_rekap_day := Some (dt_date now)\<rparr>, f))"

definition schedule_rekap_if_needed :: "bool \<Rightarrow> datetime \<Rightarrow> world \<Rightarrow> world" where
  "schedule_rekap_if_needed EXCEL_AVAILABLE now w =
     (let m = fst w;
          wd = weekday (dt_date now);
          need = (if 0 \<le> wd \<and> wd \<le> 4 \<and> hour now = 15 \<and> minute now = 30 then True
                  else if wd = 5 \<and> hour now = 13 \<and> minute now = 30 then True
                  else False)
      in if need \<and> last_rekap_day m \<noteq> Some (dt_date now) then
           (let f = write_rekap EXCEL_AVAILABLE (dt_date now)
                      (as_dict target_names (down_counter m))
                      (Some (as_dict target_names (down_times m))) (snd w);
                m1 = reset_counters m
            in (m1\<lparr>last_rekap_day := Some (dt_date now)\<rparr>, f))
         else w)"

text \<open>
  \<open>HeadlessPingMonitor.schedule_rekap_if_needed\<close>: the same statements without the
  window updates.
\<close>

definition headless_schedule_rekap_if_needed :: "bool \<Rightarrow> datetime \<Rightarrow> world \<Rightarrow> world" where
  "headless_schedule_rekap_if_needed EXCEL_AVAILABLE now w =
     (let m = fst w;
          wd = weekday (dt_date now);
          need = (if 0 \<le> wd \<and> wd \<le> 4 \<and> hour now = 15 \<and> minute now = 30 then True
                  else if wd = 5 \<and> hour now = 13 \<and> minute now = 30 then True
                  else False)
      in if need \<and> last_rekap_day m \<noteq> Some (dt_date now) then
           (let f = write_rekap EXCEL_AVAILABLE (dt_date now)
                      (as_dict target_names (down_counter m))
                      (Some (as_dict target_names (down_times m))) (snd w);
                m1 = reset_counters m
            in (m1\<lparr>last_rekap_day := Some (dt_date now)\<rparr>, f))
         else w)"

text \<open>One tick of the window, and one iteration of the headless loop.\<close>

definition tick :: "bool \<Rightarrow> datetime \<Rightarrow> (string \<rightharpoonup> string) \<Rightarrow> world \<Rightarrow> world" where
  "tick EXCEL_AVAILABLE now results w =
     schedule_rekap_if_needed EXCEL_AVAILABLE now (tick_update now results (fst w), snd w)"

definition headless_iteration ::
  "bool \<Rightarrow> datetime \<Rightarrow> (string \<rightharpoonup> string) \<Rightarrow> world \<Rightarrow> world" where
  "headless_iteration EXCEL_AVAILABLE now results w =
     headless_schedule_rekap_if_needed EXCEL_AVAILABLE now
       (headless_update now results (fst w), snd w)"

text \<open>What can happen to a running monitor, and a run as the list of what happened.\<close>

datatype event =
    Tick datetime "string \<rightharpoonup> string"
  | HeadlessIteration datetime "string \<rightharpoonup> string"
  | RekapNow datetime
  | ResetCounter

fun step :: "bool \<Rightarrow> event \<Rightarrow> world \<Rightarrow> world" where
  "step x (Tick now results) w = tick x now results w"
| "step x (HeadlessIteration now results) w = headless_iteration x now results w"
| "step x (RekapNow now) w = rekap_now x now w"
| "step x ResetCounter w = reset_counter w"

definition run_events :: "bool \<Rightarrow> event list \<Rightarrow> world \<Rightarrow> world" where
  "run_events x evs w = fold (step x) evs w"

text \<open>The statuses of a sequence of ticks fed to the tracker alone, without flushes.\<close>

definition feed :: "(datetime \<times> (string \<rightharpoonup> string)) list \<Rightarrow> monitor \<Rightarrow> monitor" where
  "feed ticks m = fold (\<lambda>(now, results). tick_update now results) ticks m"

section \<open>Notions of the specification\<close>

text \<open>
  The number of maximal runs of DOWN in a sequence of statuses that follows the status
  \<open>prev\<close>: the positions holding DOWN whose predecessor is not DOWN. \<open>run_starts\<close> gives
  the times of these positions.
\<close>

fun down_runs :: "string \<Rightarrow> string list \<Rightarrow> nat" where
  "down_runs prev [] = 0"
| "down_runs prev (st # sts) =
     (if prev \<noteq> ''DOWN'' \<and> st = ''DOWN'' then 1 else 0) + down_runs st sts"

fun run_starts :: "string \<Rightarrow> (datetime \<times> string) list \<Rightarrow> datetime list" where
  "run_starts prev [] = []"
| "run_starts prev ((now, st) # xs) =
     (if prev \<noteq> ''DOWN'' \<and> st = ''DOWN'' then [now] else []) @ run_starts st xs"

text \<open>A boundary of the scheduled recap: 15:30 from Monday to Friday, 13:30 on Saturday.\<close>

definition boundary :: "datetime \<Rightarrow> bool" where
  "boundary now =
     ((weekday (dt_date now) \<in> {0, 1, 2, 3, 4} \<and> hour now = 15 \<and> minute now = 30)
      \<or> (weekday (dt_date now) = 5 \<and> hour now = 13 \<and> minute now = 30))"

text \<open>A header row that already has a JamDown column.\<close>

definition has_jamdown :: "cell list \<Rightarrow> bool" where
  "has_jamdown h = list_ex (\<lambda>c. startswith (str_or_empty c) ''JamDown '') h"



text \<open>The text of the rows of REKAP_FILE, the file the running backend writes to.\<close>

definition report_rows :: "bool \<Rightarrow> files \<Rightarrow> string list list" where
  "report_rows EXCEL_AVAILABLE f =
     (if EXCEL_AVAILABLE then
        (case xlsx_file f of Some (Book ws) \<Rightarrow> map (map csv_text) ws | _ \<Rightarrow> [])
      else (case csv_file f of Some rows \<Rightarrow> rows | None \<Rightarrow> []))"

section \<open>Concrete inputs\<close>

text \<open>
  An empty output directory, Wednesday 4 November 2026 at three times of the day, the
  Sunday after it, and the results of a tick in which only Server is down, or every target is up.
\<close>

definition no_files :: files where
  "no_files = \<lparr>xlsx_file = None, csv_file = None\<rparr>"

definition wed_1000 :: datetime where
  "wed_1000 = \<lparr>dt_date = \<lparr>year = 2026, month = 11, day = 4\<rparr>, hour = 10, minute = 0, second = 0\<rparr>"

definition wed_1530 :: datetime where
  "wed_1530 = \<lparr>dt_date = \<lparr>year = 2026, month = 11, day = 4\<rparr>, hour = 15, minute = 30, second = 0\<rparr>"

definition wed_1600 :: datetime where
  "wed_1600 = \<lparr>dt_date = \<lparr>year = 2026, month = 11, day = 4\<rparr>, hour = 16, minute = 0, second = 0\<rparr>"

definition sun_1530 :: datetime where
  "sun_1530 = \<lparr>dt_date = \<lparr>year = 2026, month = 11, day = 8\<rparr>, hour = 15, minute = 30, second = 0\<rparr>"

definition server_down :: "string \<rightharpoonup> string" where
  "server_down =
     [''Server'' \<mapsto> ''DOWN'', ''Desktop'' \<mapsto> ''UP'', ''HP'' \<mapsto> ''UP'',
      ''Mitraskon'' \<mapsto> ''UP'', ''Mitralindo'' \<mapsto> ''UP'', ''Trekons'' \<mapsto> ''UP'']"

definition all_up :: "string \<rightharpoonup> string" where
  "all_up =
     [''Server'' \<mapsto> ''UP'', ''Desktop'' \<mapsto> ''UP'', ''HP'' \<mapsto> ''UP'',
      ''Mitraskon'' \<mapsto> ''UP'', ''Mitralindo'' \<mapsto> ''UP'', ''Trekons'' \<mapsto> ''UP'']"

text \<open>
  Report files: a CSV file and a workbook written before the JamDown columns existed, each
  with one day in it; a workbook with the current header in which a column of notes was
  inserted after the date; a CSV file with the current header followed by a blank line.
  And the counters of a day with three incidents on Server and one on Desktop.
\<close>

definition legacy_csv :: files where
  "legacy_csv =
     \<lparr>xlsx_file = None,
      csv_file = Some
        [[''Tanggal'', ''Down Server'', ''Down Desktop'', ''Down HP'', ''Down Mitraskon'',
          ''Down Mitralindo'', ''Down Trekons''],
         [''03/11/2026'', ''1'', ''0'', ''0'', ''0'', ''0'', ''0'']]\<rparr>"

definition legacy_xlsx :: files where
  "legacy_xlsx =
     \<lparr>xlsx_file = Some (Book
        [[CStr ''Tanggal'', CStr ''Down Server'', CStr ''Down Desktop'', CStr ''Down HP'',
          CStr ''Down Mitraskon'', CStr ''Down Mitralindo'', CStr ''Down Trekons''],
         [CStr ''03/11/2026'', CInt 1, CInt 0, CInt 0, CInt 0, CInt 0, CInt 0]]),
      csv_file = None\<rparr>"



definition three_and_one :: "string \<rightharpoonup> int" where
  "three_and_one = [''Server'' \<mapsto> 3, ''Desktop'' \<mapsto> 1]"

text \<open>
  A run of \<open>ping -c 2\<close> on Linux in which one of the two echo requests was answered: ping
  exits with code 0 (a reply was received) and prints this statistics line.
\<close>

definition half_loss :: subprocess where
  "half_loss argv =
     Completed 0 (Some ''2 packets transmitted, 1 received, 50% packet loss, time 1001ms'')"

definition timed_out :: subprocess where
  "timed_out argv = Raised TimeoutExpired"

section \<open>Properties of the configuration and the probe\<close>

text \<open>
  C10. With the GUI toolkit available, synthetic mode is on exactly when the variable
  USE_DUMMY is "1", so live probing is the default; without the toolkit, live probing is on
  exactly when FORCE_REAL is "1", so synthetic mode is the default.
\<close>

theorem C10_use_dummy_default:
  "(USE_DUMMY True env \<longleftrightarrow> env ''USE_DUMMY'' = Some ''1'')
   \<and> (\<not> USE_DUMMY False env \<longleftrightarrow> env ''FORCE_REAL'' = Some ''1'')
   \<and> \<not> USE_DUMMY True Map.empty
   \<and> USE_DUMMY False Map.empty"
  by (simp add: USE_DUMMY_def)

subsection \<open>Substring tests\<close>

lemma startswith_iff: "startswith s p \<longleftrightarrow> (\<exists>b. s = p @ b)"
  by (induction s p rule: startswith.induct) auto

lemma py_in_iff: "py_in p s \<longleftrightarrow> (\<exists>a b. s = a @ p @ b)"
proof (induction s)
  case Nil
  then show ?case by auto
next
  case (Cons c cs)
  show ?case
  proof
    assume "py_in p (c # cs)"
    then consider "startswith (c # cs) p" | "py_in p cs" by auto
    then show "\<exists>a b. c # cs = a @ p @ b"
    proof cases
      case 1
      then obtain b where "c # cs = p @ b" by (auto simp: startswith_iff)
      then have "c # cs = [] @ p @ b" by simp
      then show ?thesis by blast
    next
      case 2
      then obtain a b where "cs = a @ p @ b" using Cons.IH by blast
      then have "c # cs = (c # a) @ p @ b" by simp
      then show ?thesis by blast
    qed
  next
    assume "\<exists>a b. c # cs = a @ p @ b"
    then obtain a b where ab: "c # cs = a @ p @ b" by blast
    show "py_in p (c # cs)"
    proof (cases a)
      case Nil
      with ab have "startswith (c # cs) p" by (auto simp: startswith_iff)
      then show ?thesis by simp
    next
      case (Cons x a')
      with ab have "cs = a' @ p @ b" by simp
      then have "py_in p cs" using Cons.IH by blast
      then show ?thesis by simp
    qed
  qed
qed

lemma py_in_prefix: "py_in (p @ q) s \<Longrightarrow> py_in p s"
  unfolding py_in_iff by (metis append.assoc)

lemma py_in_suffix: "py_in (p @ q) s \<Longrightarrow> py_in q s"
  unfolding py_in_iff by (metis append.assoc)

lemma lost_zero_has_lost: "py_in ''lost = 0'' s \<Longrightarrow> py_in ''lost ='' s"
  using py_in_prefix [of "''lost =''" "'' 0''" s] by simp

lemma zero_loss_has_loss: "py_in ''0% packet loss'' s \<Longrightarrow> py_in ''packet loss'' s"
  using py_in_suffix [of "''0% ''" "''packet loss''" s] by simp

subsection \<open>The probe\<close>

lemma try_completed:
  "run (ping_argv windows count h) = Completed rc stdout \<Longrightarrow>
   check_target_try windows count run h =
     (if rc \<noteq> 0 \<or> py_in ''unreachable'' (out_of stdout) then Inr ''DOWN''
      else if py_in ''lost = 0'' (out_of stdout) \<or> py_in ''0% packet loss'' (out_of stdout)
        then Inr ''UP''
      else if py_in ''lost ='' (out_of stdout) \<or> py_in ''packet loss'' (out_of stdout)
        then Inr ''WARNING''
      else Inr ''DOWN'')"
  by (simp add: check_target_try_def out_of_def Let_def del: py_in.simps)

lemma try_raised:
  "run (ping_argv windows count h) = Raised e \<Longrightarrow> check_target_try windows count run h = Inl e"
  by (simp add: check_target_try_def)

text \<open>
  C2, evaluated where it fails. The claim wants Warning for partial loss. When one of two
  echo requests is lost, ping on Linux exits with 0 and reports "50% packet loss"; the text
  "0% packet loss" occurs inside it, so the test for zero loss succeeds first and
  check_target answers UP.
\<close>

theorem C2_partial_loss_classified_up:
  "check_target False ''2'' half_loss ''192.168.8.8'' = Inr ''UP''"
  by (simp add: check_target_def check_target_try_def half_loss_def lower_def lower_char_def)

text \<open>
  C7. Whatever the address and whatever the ping invocation does, check_target returns one
  of the three statuses and never an exception; it returns DOWN when the invocation raises
  (timeout, transport error, any other exception), when ping exits with a non-zero code, and
  when the output is malformed, that is, carries no loss report at all.
\<close>

theorem C7_check_target_never_raises:
  "(check_target windows count run h = Inr ''UP''
      \<or> check_target windows count run h = Inr ''WARNING''
      \<or> check_target windows count run h = Inr ''DOWN'')
   \<and> (\<forall>e. run (ping_argv windows count h) = Raised e
          \<longrightarrow> check_target windows count run h = Inr ''DOWN'')
   \<and> (\<forall>rc stdout. run (ping_argv windows count h) = Completed rc stdout \<and> rc \<noteq> 0
          \<longrightarrow> check_target windows count run h = Inr ''DOWN'')
   \<and> (\<forall>rc stdout. run (ping_argv windows count h) = Completed rc stdout
          \<and> \<not> py_in ''lost ='' (out_of stdout) \<and> \<not> py_in ''packet loss'' (out_of stdout)
          \<longrightarrow> check_target windows count run h = Inr ''DOWN'')"
proof (cases "run (ping_argv windows count h)")
  case (Completed rc stdout)
  show ?thesis
    unfolding check_target_def Completed
      try_completed [where run = run and windows = windows and count = count and h = h,
        OF Completed]
    using lost_zero_has_lost [of "out_of stdout"] zero_loss_has_loss [of "out_of stdout"]
    by (auto simp del: py_in.simps)
next
  case (Raised e)
  show ?thesis
    unfolding check_target_def Raised
      try_raised [where run = run and windows = windows and count = count and h = h,
        OF Raised]
    by simp
qed

theorem C7_check_target_never_raises_witness:
  "timed_out (ping_argv False ''2'' ''trekons.com'') = Raised TimeoutExpired
   \<and> check_target False ''2'' timed_out ''trekons.com'' = Inr ''DOWN''"
  using C7_check_target_never_raises [of False "''2''" timed_out "''trekons.com''"]
  by (simp add: timed_out_def)

section \<open>Properties of the tracker\<close>

lemma target_names_eq: "target_names = REKAP_ORDER"
  by (simp add: target_names_def TARGETS_def REKAP_ORDER_def)

lemma distinct_target_names: "distinct target_names"
  by (simp add: target_names_def TARGETS_def)

lemma track_last_status:
  "last_status (track now nm st m) = (last_status m)(nm := st)"
  unfolding track_def
  by (cases "st = ''DOWN''"; cases "last_status m nm = ''DOWN''"; cases "incident_open m nm";
      simp add: fun_eq_iff)

lemma track_last_rekap_day: "last_rekap_day (track now nm st m) = last_rekap_day m"
  unfolding track_def
  by (cases "st = ''DOWN''"; cases "last_status m nm = ''DOWN''"; cases "incident_open m nm";
      simp add: fun_eq_iff)

lemma track_incident_open:
  "incident_open (track now nm st m) =
     (incident_open m)(nm := (st = ''DOWN'' \<and> (incident_open m nm \<or> last_status m nm \<noteq> ''DOWN'')))"
  unfolding track_def
  by (cases "st = ''DOWN''"; cases "last_status m nm = ''DOWN''"; cases "incident_open m nm";
      simp add: fun_eq_iff)

lemma track_down_counter:
  "down_counter (track now nm st m) =
     (down_counter m)(nm := down_counter m nm +
        (if last_status m nm \<noteq> ''DOWN'' \<and> st = ''DOWN'' \<and> \<not> incident_open m nm then 1 else 0))"
  unfolding track_def
  by (cases "st = ''DOWN''"; cases "last_status m nm = ''DOWN''"; cases "incident_open m nm";
      simp add: fun_eq_iff)

lemma track_down_times:
  "down_times (track now nm st m) =
     (down_times m)(nm := down_times m nm @
        (if last_status m nm \<noteq> ''DOWN'' \<and> st = ''DOWN'' \<and> \<not> incident_open m nm
         then [strftime_HM now] else []))"
  unfolding track_def
  by (cases "st = ''DOWN''"; cases "last_status m nm = ''DOWN''"; cases "incident_open m nm";
      simp add: fun_eq_iff)

lemmas track_fields =
  track_last_status track_incident_open track_down_counter track_down_times track_last_rekap_day

lemma fold_track_other:
  "k \<notin> set ns \<Longrightarrow>
   last_status (fold (\<lambda>n. track now n (g n)) ns m) k = last_status m k
   \<and> incident_open (fold (\<lambda>n. track now n (g n)) ns m) k = incident_open m k
   \<and> down_counter (fold (\<lambda>n. track now n (g n)) ns m) k = down_counter m k
   \<and> down_times (fold (\<lambda>n. track now n (g n)) ns m) k = down_times m k"
  by (induction ns arbitrary: m) (simp_all add: track_fields)

lemma fold_track_last_rekap_day:
  "last_rekap_day (fold (\<lambda>n. track now n (g n)) ns m) = last_rekap_day m"
  by (induction ns arbitrary: m) (simp_all add: track_fields)

lemma fold_track_member:
  "distinct ns \<Longrightarrow> k \<in> set ns \<Longrightarrow>
   last_status (fold (\<lambda>n. track now n (g n)) ns m) k = last_status (track now k (g k) m) k
   \<and> incident_open (fold (\<lambda>n. track now n (g n)) ns m) k = incident_open (track now k (g k) m) k
   \<and> down_counter (fold (\<lambda>n. track now n (g n)) ns m) k = down_counter (track now k (g k) m) k
   \<and> down_times (fold (\<lambda>n. track now n (g n)) ns m) k = down_times (track now k (g k) m) k"
proof (induction ns arbitrary: m)
  case Nil
  then show ?case by simp
next
  case (Cons n ns)
  show ?case
  proof (cases "k = n")
    case True
    with Cons.prems have "k \<notin> set ns" by simp
    from fold_track_other [OF this, of now g "track now n (g n) m"] True
    show ?thesis by simp
  next
    case False
    with Cons.prems have "distinct ns" "k \<in> set ns" by simp_all
    from Cons.IH [OF this, of "track now n (g n) m"] False
    show ?thesis by (simp add: track_fields)
  qed
qed

text \<open>One tick seen from one target.\<close>

lemma tick_update_target:
  assumes "nm \<in> set target_names"
  shows "last_status (tick_update now results m) nm = results_get results nm"
    and "incident_open (tick_update now results m) nm =
           (results_get results nm = ''DOWN'' \<and> (incident_open m nm \<or> last_status m nm \<noteq> ''DOWN''))"
    and "down_counter (tick_update now results m) nm = down_counter m nm +
           (if last_status m nm \<noteq> ''DOWN'' \<and> results_get results nm = ''DOWN'' \<and> \<not> incident_open m nm
            then 1 else 0)"
    and "down_times (tick_update now results m) nm = down_times m nm @
           (if last_status m nm \<noteq> ''DOWN'' \<and> results_get results nm = ''DOWN'' \<and> \<not> incident_open m nm
            then [strftime_HM now] else [])"
  using fold_track_member [OF distinct_target_names assms, of now "results_get results" m]
  by (simp_all add: tick_update_def track_fields)

lemma tick_update_last_rekap_day:
  "last_rekap_day (tick_update now results m) = last_rekap_day m"
  by (simp add: tick_update_def fold_track_last_rekap_day)

lemma headless_update_eq: "headless_update now results m = tick_update now results m"
  by (simp add: headless_update_def tick_update_def target_names_eq)

lemma feed_counts:
  assumes "nm \<in> set target_names"
    and "incident_open m nm = (last_status m nm = ''DOWN'')"
  shows "down_counter (feed ticks m) nm =
           down_counter m nm
             + int (down_runs (last_status m nm) (map (\<lambda>(now, results). results_get results nm) ticks))
         \<and> down_times (feed ticks m) nm =
             down_times m nm
               @ map strftime_HM
                   (run_starts (last_status m nm)
                      (map (\<lambda>(now, results). (now, results_get results nm)) ticks))
         \<and> incident_open (feed ticks m) nm = (last_status (feed ticks m) nm = ''DOWN'')"
  using assms(2)
proof (induction ticks arbitrary: m)
  case Nil
  then show ?case by (simp add: feed_def)
next
  case (Cons t ticks)
  obtain now results where t: "t = (now, results)" by (cases t)
  let ?m = "tick_update now results m"
  have step: "feed (t # ticks) m = feed ticks ?m" by (simp add: feed_def t)
  have inv: "incident_open ?m nm = (last_status ?m nm = ''DOWN'')"
    using Cons.prems by (simp add: tick_update_target [OF assms(1)])
  from Cons.IH [OF inv] Cons.prems
  show ?case
    unfolding step by (simp add: t tick_update_target [OF assms(1)])
qed

lemma down_runs_after_down:
  "\<forall>st \<in> set sts. st = ''DOWN'' \<Longrightarrow> down_runs ''DOWN'' sts = 0"
  by (induction sts) simp_all

lemma run_starts_after_down:
  "\<forall>x \<in> set xs. snd x = ''DOWN'' \<Longrightarrow> run_starts ''DOWN'' xs = []"
  by (induction xs) auto

subsection \<open>Flushes\<close>

lemma fold_reset_fields:
  "last_status (fold (\<lambda>k s. s\<lparr>down_counter := (down_counter s)(k := 0),
        down_times := (down_times s)(k := [])\<rparr>) ns m) = last_status m
   \<and> incident_open (fold (\<lambda>k s. s\<lparr>down_counter := (down_counter s)(k := 0),
        down_times := (down_times s)(k := [])\<rparr>) ns m) = incident_open m
   \<and> last_rekap_day (fold (\<lambda>k s. s\<lparr>down_counter := (down_counter s)(k := 0),
        down_times := (down_times s)(k := [])\<rparr>) ns m) = last_rekap_day m
   \<and> down_counter (fold (\<lambda>k s. s\<lparr>down_counter := (down_counter s)(k := 0),
        down_times := (down_times s)(k := [])\<rparr>) ns m) k
        = (if k \<in> set ns then 0 else down_counter m k)
   \<and> down_times (fold (\<lambda>k s. s\<lparr>down_counter := (down_counter s)(k := 0),
        down_times := (down_times s)(k := [])\<rparr>) ns m) k
        = (if k \<in> set ns then [] else down_times m k)"
  by (induction ns arbitrary: m) simp_all

lemma reset_counters_fields:
  "last_status (reset_counters m) = last_status m"
  "incident_open (reset_counters m) = incident_open m"
  "last_rekap_day (reset_counters m) = last_rekap_day m"
  "down_counter (reset_counters m) k = (if k \<in> set target_names then 0 else down_counter m k)"
  "down_times (reset_counters m) k = (if k \<in> set target_names then [] else down_times m k)"
  using fold_reset_fields [of target_names m k] by (simp_all add: reset_counters_def)

lemma need_boundary:
  "(if 0 \<le> wd \<and> wd \<le> 4 \<and> h = 15 \<and> mi = 30 then True
    else if wd = 5 \<and> h = 13 \<and> mi = 30 then True else False)
   = ((wd \<in> {0, 1, 2, 3, 4} \<and> h = 15 \<and> mi = 30) \<or> (wd = 5 \<and> h = 13 \<and> mi = (30::nat)))"
  for wd h mi :: nat
  by auto

lemma rekap_now_eq:
  "rekap_now x now w =
     ((reset_counters (fst w))\<lparr>last_rekap_day := Some (dt_date now)\<rparr>,
      write_rekap x (dt_date now) (as_dict target_names (down_counter (fst w)))
        (Some (as_dict target_names (down_times (fst w)))) (snd w))"
  unfolding rekap_now_def Let_def by (rule refl)

lemma schedule_eq:
  "schedule_rekap_if_needed x now w =
     (if boundary now \<and> last_rekap_day (fst w) \<noteq> Some (dt_date now)
      then rekap_now x now w else w)"
  unfolding schedule_rekap_if_needed_def rekap_now_def boundary_def Let_def need_boundary
  by (rule refl)

lemma headless_schedule_eq:
  "headless_schedule_rekap_if_needed x now w = schedule_rekap_if_needed x now w"
  unfolding headless_schedule_rekap_if_needed_def schedule_rekap_if_needed_def
  by (rule refl)

lemma headless_iteration_eq: "headless_iteration x now results w = tick x now results w"
  by (simp add: headless_iteration_def tick_def headless_schedule_eq headless_update_eq)

subsection \<open>Count and timestamps agree\<close>

lemma track_agree:
  "\<forall>k. down_counter m k = int (length (down_times m k)) \<Longrightarrow>
   \<forall>k. down_counter (track now nm st m) k = int (length (down_times (track now nm st m) k))"
  by (simp add: track_fields)

lemma fold_track_agree:
  "\<forall>k. down_counter m k = int (length (down_times m k)) \<Longrightarrow>
   \<forall>k. down_counter (fold (\<lambda>n. track now n (g n)) ns m) k
        = int (length (down_times (fold (\<lambda>n. track now n (g n)) ns m) k))"
proof (induction ns arbitrary: m)
  case Nil
  then show ?case by simp
next
  case (Cons n ns)
  from Cons.IH [OF track_agree [OF Cons.prems, of now n "g n"]]
  show ?case by simp
qed

lemma reset_agree:
  "\<forall>k. down_counter m k = int (length (down_times m k)) \<Longrightarrow>
   \<forall>k. down_counter (reset_counters m) k = int (length (down_times (reset_counters m) k))"
  by (simp add: reset_counters_fields)

lemma rekap_now_agree:
  "\<forall>k. down_counter (fst w) k = int (length (down_times (fst w) k)) \<Longrightarrow>
   \<forall>k. down_counter (fst (rekap_now x now w)) k
        = int (length (down_times (fst (rekap_now x now w)) k))"
  by (simp add: rekap_now_eq reset_counters_fields)

lemma tick_agree:
  assumes "\<forall>k. down_counter (fst w) k = int (length (down_times (fst w) k))"
  shows "\<forall>k. down_counter (fst (tick x now results w)) k
        = int (length (down_times (fst (tick x now results w)) k))"
proof -
  let ?w = "(tick_update now results (fst w), snd w)"
  have a: "\<forall>k. down_counter (fst ?w) k = int (length (down_times (fst ?w) k))"
    using fold_track_agree [OF assms, of now "results_get results" target_names]
    by (simp add: tick_update_def)
  show ?thesis
    unfolding tick_def schedule_eq
    using a rekap_now_agree [OF a, of x now] by (simp del: fst_conv)
qed

lemma step_agree:
  assumes "\<forall>k. down_counter (fst w) k = int (length (down_times (fst w) k))"
  shows "\<forall>k. down_counter (fst (step x ev w)) k = int (length (down_times (fst (step x ev w)) k))"
proof (cases ev)
  case (Tick now results)
  then show ?thesis using tick_agree [OF assms] by simp
next
  case (HeadlessIteration now results)
  then show ?thesis using tick_agree [OF assms] by (simp add: headless_iteration_eq)
next
  case (RekapNow now)
  then show ?thesis using rekap_now_agree [OF assms] by simp
next
  case ResetCounter
  then show ?thesis using reset_agree [OF assms] by (simp add: reset_counter_def)
qed

lemma run_events_agree:
  "\<forall>k. down_counter (fst w) k = int (length (down_times (fst w) k)) \<Longrightarrow>
   \<forall>k. down_counter (fst (run_events x evs w)) k
        = int (length (down_times (fst (run_events x evs w)) k))"
proof (induction evs arbitrary: w)
  case Nil
  then show ?case by (simp add: run_events_def)
next
  case (Cons ev evs)
  from Cons.IH [OF step_agree [OF Cons.prems, of x ev]]
  show ?case by (simp add: run_events_def)
qed

lemma init_agree:
  "\<forall>k. down_counter (fst (init_monitor, f)) k = int (length (down_times (fst (init_monitor, f)) k))"
  by (simp add: init_monitor_def)

text \<open>
  C4. Start from the initial state (no incident open, zero counts, no timestamps) and let
  anything happen in any order: ticks of the window, iterations of the headless loop,
  manual recaps, counter resets, scheduled recaps inside the ticks. After every such run,
  hence after every step and every reset, the count of each target equals the number of
  its timestamps.
\<close>

theorem C4_count_equals_timestamps:
  "nm \<in> set target_names \<Longrightarrow>
   down_counter (fst (run_events x evs (init_monitor, f))) nm
     = int (length (down_times (fst (run_events x evs (init_monitor, f))) nm))"
  using run_events_agree [OF init_agree, of x evs f] by blast

theorem C4_count_equals_timestamps_witness:
  "''Server'' \<in> set target_names
   \<and> down_counter (fst (run_events False [Tick wed_1000 server_down, ResetCounter]
        (init_monitor, no_files))) ''Server''
     = int (length (down_times (fst (run_events False [Tick wed_1000 server_down, ResetCounter]
        (init_monitor, no_files))) ''Server''))"
  using C4_count_equals_timestamps
    [of "''Server''" False "[Tick wed_1000 server_down, ResetCounter]" no_files]
  by (simp add: target_names_def TARGETS_def)

lemma statuses_all_down:
  "\<forall>(now, results) \<in> set ticks. results_get results nm = ''DOWN'' \<Longrightarrow>
   (\<forall>st \<in> set (map (\<lambda>(now, results). results_get results nm) ticks). st = ''DOWN'')
   \<and> (\<forall>x \<in> set (map (\<lambda>(now, results). (now, results_get results nm)) ticks). snd x = ''DOWN'')"
  by auto

lemma strftime_wed: "strftime_HM wed_1000 = ''10:00''"
  by code_simp

lemma results_server: "results_get server_down ''Server'' = ''DOWN''" "results_get all_up ''Server'' = ''UP''"
  by (simp_all add: results_get_def server_down_def all_up_def)

subsection \<open>An incident is open exactly while the last status is DOWN\<close>

lemma tick_update_consistent:
  assumes "nm \<in> set target_names"
    and "incident_open m nm = (last_status m nm = ''DOWN'')"
  shows "incident_open (tick_update now results m) nm
           = (last_status (tick_update now results m) nm = ''DOWN'')"
  using assms(2) by (simp add: tick_update_target [OF assms(1)])

lemma rekap_now_keeps:
  "last_status (fst (rekap_now x now w)) = last_status (fst w)"
  "incident_open (fst (rekap_now x now w)) = incident_open (fst w)"
  by (simp_all add: rekap_now_eq reset_counters_fields)

lemma schedule_keeps:
  "last_status (fst (schedule_rekap_if_needed x now w)) = last_status (fst w)"
  "incident_open (fst (schedule_rekap_if_needed x now w)) = incident_open (fst w)"
  by (simp_all add: schedule_eq rekap_now_keeps)

lemma step_consistent:
  assumes nm: "nm \<in> set target_names"
    and c: "incident_open (fst w) nm = (last_status (fst w) nm = ''DOWN'')"
  shows "incident_open (fst (step x ev w)) nm = (last_status (fst (step x ev w)) nm = ''DOWN'')"
proof (cases ev)
  case (Tick now results)
  then show ?thesis
    using tick_update_consistent [OF nm c, of now results]
    by (simp add: tick_def schedule_keeps)
next
  case (HeadlessIteration now results)
  then show ?thesis
    using tick_update_consistent [OF nm c, of now results]
    by (simp add: headless_iteration_eq tick_def schedule_keeps)
next
  case (RekapNow now)
  then show ?thesis using c by (simp add: rekap_now_keeps)
next
  case ResetCounter
  then show ?thesis using c by (simp add: reset_counter_def reset_counters_fields)
qed

lemma run_events_consistent:
  assumes nm: "nm \<in> set target_names"
  shows "incident_open (fst w) nm = (last_status (fst w) nm = ''DOWN'') \<Longrightarrow>
         incident_open (fst (run_events x evs w)) nm
           = (last_status (fst (run_events x evs w)) nm = ''DOWN'')"
proof (induction evs arbitrary: w)
  case Nil
  then show ?case by (simp add: run_events_def)
next
  case (Cons ev evs)
  from Cons.IH [OF step_consistent [OF nm Cons.prems, of x ev]]
  show ?case by (simp add: run_events_def)
qed

lemma reachable_consistent:
  "nm \<in> set target_names \<Longrightarrow>
   incident_open (fst (run_events x evs (init_monitor, f))) nm
     = (last_status (fst (run_events x evs (init_monitor, f))) nm = ''DOWN'')"
  by (rule run_events_consistent) (simp_all add: init_monitor_def)

subsection \<open>Ticks while an incident stays open\<close>

lemma tick_open_down:
  assumes nm: "nm \<in> set target_names"
    and "results_get results nm = ''DOWN''"
    and "incident_open (fst w) nm"
    and "down_counter (fst w) nm = 0"
    and "down_times (fst w) nm = []"
  shows "incident_open (fst (tick x now results w)) nm
         \<and> down_counter (fst (tick x now results w)) nm = 0
         \<and> down_times (fst (tick x now results w)) nm = []"
  using assms(2-)
  by (simp add: tick_def schedule_eq rekap_now_eq reset_counters_fields
        tick_update_target [OF nm])

lemma ticks_open_down:
  assumes nm: "nm \<in> set target_names"
  shows "\<forall>(now, results) \<in> set ticks. results_get results nm = ''DOWN'' \<Longrightarrow>
         incident_open (fst w) nm \<Longrightarrow> down_counter (fst w) nm = 0 \<Longrightarrow>
         down_times (fst w) nm = [] \<Longrightarrow>
         incident_open (fst (run_events x (map (\<lambda>(now, results). Tick now results) ticks) w)) nm
         \<and> down_counter (fst (run_events x (map (\<lambda>(now, results). Tick now results) ticks) w)) nm = 0
         \<and> down_times (fst (run_events x (map (\<lambda>(now, results). Tick now results) ticks) w)) nm = []"
proof (induction ticks arbitrary: w)
  case Nil
  then show ?case by (simp add: run_events_def)
next
  case (Cons t ticks)
  obtain now results where t: "t = (now, results)" by (cases t)
  from Cons.prems(1) have d: "results_get results nm = ''DOWN''"
    and rest: "\<forall>(now, results) \<in> set ticks. results_get results nm = ''DOWN''"
    by (simp_all add: t)
  note s = tick_open_down [OF nm d Cons.prems(2-4), of x now]
  from Cons.IH [OF rest, of "tick x now results w"] s
  show ?case by (simp add: run_events_def t)
qed

text \<open>
  C3. Take a target whose incident flag agrees with its last status, as it does in every
  state the monitor reaches (\<open>reachable_consistent\<close>), and feed it any sequence of ticks.
  Its count grows by the number of maximal runs of DOWN in the statuses it receives, and
  one timestamp is appended per run, the time of the first DOWN of the run. In particular
  a run of DOWN that follows a status other than DOWN adds exactly one to the count, on
  its first tick, and one timestamp, however long it is; and DOWN, not DOWN, DOWN adds
  exactly two. The headless loop runs the same update (\<open>headless_update_eq\<close>).
\<close>

theorem C3_down_run_counted_once:
  assumes nm: "nm \<in> set target_names"
    and consistent: "incident_open m nm = (last_status m nm = ''DOWN'')"
  shows "down_counter (feed ticks m) nm =
           down_counter m nm
             + int (down_runs (last_status m nm) (map (\<lambda>(now, results). results_get results nm) ticks))
         \<and> down_times (feed ticks m) nm =
             down_times m nm
               @ map strftime_HM
                   (run_starts (last_status m nm)
                      (map (\<lambda>(now, results). (now, results_get results nm)) ticks))
         \<and> (last_status m nm \<noteq> ''DOWN'' \<and> results_get r nm = ''DOWN''
              \<and> (\<forall>(now, results) \<in> set ticks. results_get results nm = ''DOWN'')
             \<longrightarrow> down_counter (feed [(t, r)] m) nm = down_counter m nm + 1
                 \<and> down_counter (feed ((t, r) # ticks) m) nm = down_counter m nm + 1
                 \<and> down_times (feed ((t, r) # ticks) m) nm = down_times m nm @ [strftime_HM t])
         \<and> (last_status m nm \<noteq> ''DOWN'' \<and> results_get r1 nm = ''DOWN''
              \<and> results_get r2 nm \<noteq> ''DOWN'' \<and> results_get r3 nm = ''DOWN''
             \<longrightarrow> down_counter (feed [(t1, r1), (t2, r2), (t3, r3)] m) nm = down_counter m nm + 2)"
proof (intro conjI impI)
  show "down_counter (feed ticks m) nm =
           down_counter m nm
             + int (down_runs (last_status m nm) (map (\<lambda>(now, results). results_get results nm) ticks))"
    using feed_counts [OF nm consistent, of ticks] by blast
  show "down_times (feed ticks m) nm =
             down_times m nm
               @ map strftime_HM
                   (run_starts (last_status m nm)
                      (map (\<lambda>(now, results). (now, results_get results nm)) ticks))"
    using feed_counts [OF nm consistent, of ticks] by blast
next
  assume a: "last_status m nm \<noteq> ''DOWN'' \<and> results_get r nm = ''DOWN''
              \<and> (\<forall>(now, results) \<in> set ticks. results_get results nm = ''DOWN'')"
  then have all: "\<forall>(now, results) \<in> set ticks. results_get results nm = ''DOWN''" by blast
  note s = statuses_all_down [OF all]
  have d0: "down_runs ''DOWN'' (map (\<lambda>(now, results). results_get results nm) ticks) = 0"
    using s by (intro down_runs_after_down) blast
  have r0: "run_starts ''DOWN'' (map (\<lambda>(now, results). (now, results_get results nm)) ticks) = []"
    using s by (intro run_starts_after_down) blast
  show "down_counter (feed [(t, r)] m) nm = down_counter m nm + 1"
    using feed_counts [OF nm consistent, of "[(t, r)]"] a by simp
  show "down_counter (feed ((t, r) # ticks) m) nm = down_counter m nm + 1"
    using feed_counts [OF nm consistent, of "(t, r) # ticks"] a d0 by simp
  show "down_times (feed ((t, r) # ticks) m) nm = down_times m nm @ [strftime_HM t]"
    using feed_counts [OF nm consistent, of "(t, r) # ticks"] a r0 by simp
next
  assume "last_status m nm \<noteq> ''DOWN'' \<and> results_get r1 nm = ''DOWN''
              \<and> results_get r2 nm \<noteq> ''DOWN'' \<and> results_get r3 nm = ''DOWN''"
  then show "down_counter (feed [(t1, r1), (t2, r2), (t3, r3)] m) nm = down_counter m nm + 2"
    using feed_counts [OF nm consistent, of "[(t1, r1), (t2, r2), (t3, r3)]"] by simp
qed

text \<open>
  C6. The reset run at a recap flush sets the count of every target to 0 and empties its
  timestamps, and changes no last status and no incident flag; this is the monitor state
  that both schedulers leave when they fire. An incident that is open at the reset stays
  open through all following ticks in which the target is still DOWN, and its count stays
  0 with no timestamp: it is not counted again.
\<close>

theorem C6_reset_keeps_incident:
  assumes nm: "nm \<in> set target_names"
  shows "down_counter (reset_counters m) nm = 0
         \<and> down_times (reset_counters m) nm = []
         \<and> last_status (reset_counters m) = last_status m
         \<and> incident_open (reset_counters m) = incident_open m
         \<and> (boundary now \<and> last_rekap_day m \<noteq> Some (dt_date now) \<longrightarrow>
              fst (schedule_rekap_if_needed x now (m, f))
                = (reset_counters m)\<lparr>last_rekap_day := Some (dt_date now)\<rparr>
              \<and> fst (headless_schedule_rekap_if_needed x now (m, f))
                = (reset_counters m)\<lparr>last_rekap_day := Some (dt_date now)\<rparr>)
         \<and> (incident_open m nm
              \<and> (\<forall>(t, results) \<in> set ticks. results_get results nm = ''DOWN'') \<longrightarrow>
              incident_open
                (fst (run_events x (map (\<lambda>(t, results). Tick t results) ticks)
                   (reset_counters m, f))) nm
              \<and> down_counter
                (fst (run_events x (map (\<lambda>(t, results). Tick t results) ticks)
                   (reset_counters m, f))) nm = 0
              \<and> down_times
                (fst (run_events x (map (\<lambda>(t, results). Tick t results) ticks)
                   (reset_counters m, f))) nm = [])"
proof (intro conjI impI)
  show "down_counter (reset_counters m) nm = 0" "down_times (reset_counters m) nm = []"
    using nm by (simp_all add: reset_counters_fields)
  show "last_status (reset_counters m) = last_status m"
    "incident_open (reset_counters m) = incident_open m"
    by (simp_all add: reset_counters_fields)
next
  assume "boundary now \<and> last_rekap_day m \<noteq> Some (dt_date now)"
  then show "fst (schedule_rekap_if_needed x now (m, f))
                = (reset_counters m)\<lparr>last_rekap_day := Some (dt_date now)\<rparr>"
    "fst (headless_schedule_rekap_if_needed x now (m, f))
                = (reset_counters m)\<lparr>last_rekap_day := Some (dt_date now)\<rparr>"
    by (simp_all add: headless_schedule_eq schedule_eq rekap_now_eq)
next
  assume a: "incident_open m nm
              \<and> (\<forall>(t, results) \<in> set ticks. results_get results nm = ''DOWN'')"
  have "incident_open
          (fst (run_events x (map (\<lambda>(t, results). Tick t results) ticks) (reset_counters m, f))) nm
        \<and> down_counter
          (fst (run_events x (map (\<lambda>(t, results). Tick t results) ticks) (reset_counters m, f))) nm = 0
        \<and> down_times
          (fst (run_events x (map (\<lambda>(t, results). Tick t results) ticks) (reset_counters m, f))) nm = []"
    using a nm by (intro ticks_open_down [OF nm]) (simp_all add: reset_counters_fields)
  then show "incident_open
          (fst (run_events x (map (\<lambda>(t, results). Tick t results) ticks) (reset_counters m, f))) nm"
    "down_counter
          (fst (run_events x (map (\<lambda>(t, results). Tick t results) ticks) (reset_counters m, f))) nm = 0"
    "down_times
          (fst (run_events x (map (\<lambda>(t, results). Tick t results) ticks) (reset_counters m, f))) nm = []"
    by blast+
qed

subsection \<open>The claims on the tracker at concrete inputs\<close>

lemma server_is_target: "''Server'' \<in> set target_names"
  by (simp add: target_names_def TARGETS_def)

lemma boundary_wed_1530: "boundary wed_1530"
  by (simp add: boundary_def wed_1530_def weekday_def toordinal_def days_before_year_def
        days_before_month_def is_leap_def)

lemma same_day: "dt_date wed_1000 = dt_date wed_1530" "dt_date wed_1600 = dt_date wed_1530"
  by (simp_all add: wed_1000_def wed_1530_def wed_1600_def)

theorem C3_down_run_counted_once_witness:
  "''Server'' \<in> set target_names
   \<and> incident_open init_monitor ''Server'' = (last_status init_monitor ''Server'' = ''DOWN'')
   \<and> last_status init_monitor ''Server'' \<noteq> ''DOWN''
   \<and> results_get server_down ''Server'' = ''DOWN''
   \<and> results_get all_up ''Server'' \<noteq> ''DOWN''
   \<and> down_counter (feed [(wed_1000, server_down), (wed_1530, server_down), (wed_1600, server_down)]
        init_monitor) ''Server'' = 1
   \<and> down_times (feed [(wed_1000, server_down), (wed_1530, server_down), (wed_1600, server_down)]
        init_monitor) ''Server'' = [''10:00'']
   \<and> down_counter (feed [(wed_1000, server_down), (wed_1530, all_up), (wed_1600, server_down)]
        init_monitor) ''Server'' = 2"
proof -
  have c: "incident_open init_monitor ''Server'' = (last_status init_monitor ''Server'' = ''DOWN'')"
    and n: "last_status init_monitor ''Server'' \<noteq> ''DOWN''"
    by (simp_all add: init_monitor_def)
  from C3_down_run_counted_once [OF server_is_target c,
      where ticks = "[(wed_1530, server_down), (wed_1600, server_down)]"
        and r = server_down and t = wed_1000
        and ?r1.0 = server_down and ?r2.0 = all_up and ?r3.0 = server_down
        and ?t1.0 = wed_1000 and ?t2.0 = wed_1530 and ?t3.0 = wed_1600]
    server_is_target c n
  show ?thesis
    by (simp add: results_server strftime_wed init_monitor_def)
qed

theorem C6_reset_keeps_incident_witness:
  "''Server'' \<in> set target_names
   \<and> boundary wed_1530
   \<and> last_rekap_day (tick_update wed_1000 server_down init_monitor) \<noteq> Some (dt_date wed_1530)
   \<and> incident_open (tick_update wed_1000 server_down init_monitor) ''Server''
   \<and> results_get server_down ''Server'' = ''DOWN''
   \<and> down_counter (tick_update wed_1000 server_down init_monitor) ''Server'' = 1
   \<and> down_counter (fst (schedule_rekap_if_needed False wed_1530
        (tick_update wed_1000 server_down init_monitor, no_files))) ''Server'' = 0
   \<and> incident_open (fst (run_events False [Tick wed_1600 server_down]
        (reset_counters (tick_update wed_1000 server_down init_monitor), no_files))) ''Server''
   \<and> down_counter (fst (run_events False [Tick wed_1600 server_down]
        (reset_counters (tick_update wed_1000 server_down init_monitor), no_files))) ''Server'' = 0"
proof -
  let ?m = "tick_update wed_1000 server_down init_monitor"
  have d: "last_rekap_day ?m \<noteq> Some (dt_date wed_1530)"
    by (simp add: tick_update_last_rekap_day init_monitor_def)
  have i: "incident_open ?m ''Server''" and c: "down_counter ?m ''Server'' = 1"
    by (simp_all add: tick_update_target [OF server_is_target] results_server init_monitor_def)
  from C6_reset_keeps_incident [OF server_is_target, where m = ?m and now = wed_1530
      and x = False and f = no_files and ticks = "[(wed_1600, server_down)]"]
    server_is_target boundary_wed_1530 d i c
  show ?thesis
    by (simp add: results_server)
qed

section \<open>Properties of the report file\<close>

subsection \<open>Worksheets\<close>

lemma length_le_max_column: "r \<in> set ws \<Longrightarrow> length r \<le> max_column ws"
  unfolding max_column_def by (induction ws) auto

lemma max_column_Cons:
  "max_column (h # rows) = max (length h) (max_column rows)"
  unfolding max_column_def by simp


lemma length_pad: "length (pad n x xs) = max n (length xs)"
  by (simp add: pad_def)

lemma pad_id: "n \<le> length xs \<Longrightarrow> pad n x xs = xs"
  by (simp add: pad_def)



lemma cell_value_first_row:
  "cell_value (h # rows) (Suc 0) c = (if 1 \<le> c \<and> c \<le> length h then h ! (c - 1) else CNone)"
  by (simp add: cell_value_def)

lemma cell_value_Nil: "cell_value [] r c = CNone"
  by (auto simp add: cell_value_def)

lemma headers_eq_pad:
  "map (cell_value (h # rows) 1) [1 ..< max_column (h # rows) + 1]
     = pad (max_column (h # rows)) CNone h"
proof (rule nth_equalityI)
  have le: "length h \<le> max_column (h # rows)" by (simp add: max_column_Cons)
  show "length (map (cell_value (h # rows) 1) [1 ..< max_column (h # rows) + 1])
          = length (pad (max_column (h # rows)) CNone h)"
    using le by (simp add: length_pad del: upt_Suc)
  fix i
  assume "i < length (map (cell_value (h # rows) 1) [1 ..< max_column (h # rows) + 1])"
  then have i: "i < max_column (h # rows)" by (simp del: upt_Suc)
  then have "[1 ..< max_column (h # rows) + 1] ! i = i + 1"
    by (simp del: upt_Suc)
  then show "map (cell_value (h # rows) 1) [1 ..< max_column (h # rows) + 1] ! i
          = pad (max_column (h # rows)) CNone h ! i"
    using i by (simp add: cell_value_first_row pad_def nth_append del: upt_Suc)
qed

lemma set_cell_after_last:
  assumes "length h \<le> M"
  shows "set_cell (h # rows) 1 (M + 1) v = (pad M CNone h @ [v]) # rows"
proof -
  have "pad (M + 1) CNone h = pad M CNone h @ [CNone]"
    using assms by (simp add: pad_def Suc_diff_le replicate_append_same)
  moreover have "length (pad M CNone h) = M"
    using assms by (simp add: length_pad)
  ultimately have "(pad (M + 1) CNone h)[M := v] = pad M CNone h @ [v]"
    by (metis list_update_length)
  then show ?thesis
    by (simp add: set_cell_def pad_def)
qed

subsection \<open>Adding the JamDown headers\<close>

lemma fold_append_headers:
  "length h = max_column (h # rows) \<Longrightarrow>
   fold (\<lambda>n w. set_cell w 1 (max_column w + 1) (g n)) ns (h # rows) = (h @ map g ns) # rows"
proof (induction ns arbitrary: h)
  case Nil
  then show ?case by simp
next
  case (Cons n ns)
  have s: "set_cell (h # rows) 1 (max_column (h # rows) + 1) (g n) = (h @ [g n]) # rows"
    using set_cell_after_last [of h "max_column (h # rows)" rows "g n"] Cons.prems
    by (simp add: pad_id)
  have "max_column rows \<le> length h"
    using Cons.prems by (simp add: max_column_Cons)
  then have l: "length (h @ [g n]) = max_column ((h @ [g n]) # rows)"
    by (simp add: max_column_Cons)
  show ?case
    using Cons.IH [OF l] s by simp
qed

lemma add_jamdown_headers_eq:
  "add_jamdown_headers (h # rows) =
     (pad (max_column (h # rows)) CNone h @ map (\<lambda>n. CStr (''JamDown '' @ n)) REKAP_ORDER) # rows"
proof -
  let ?M = "max_column (h # rows)"
  let ?g = "\<lambda>n. CStr (''JamDown '' @ n)"
  obtain n ns where ro: "REKAP_ORDER = n # ns" by (simp add: REKAP_ORDER_def)
  have le: "length h \<le> ?M" by (simp add: max_column_Cons)
  have s: "set_cell (h # rows) 1 (?M + 1) (?g n) = (pad ?M CNone h @ [?g n]) # rows"
    using le by (rule set_cell_after_last)
  have "max_column rows \<le> ?M" by (simp add: max_column_Cons)
  then have l: "length (pad ?M CNone h @ [?g n]) = max_column ((pad ?M CNone h @ [?g n]) # rows)"
    using le by (simp add: max_column_Cons length_pad)
  show ?thesis
    unfolding add_jamdown_headers_def ro
    using fold_append_headers [OF l, of ?g ns] s by simp
qed

subsection \<open>ensure_workbook, case by case\<close>

lemma tanggal_first:
  "cell_value ws 1 1 = CStr ''Tanggal'' \<longleftrightarrow>
     (\<exists>h rows. ws = h # rows \<and> h \<noteq> [] \<and> hd h = CStr ''Tanggal'')"
proof (cases ws)
  case Nil
  then show ?thesis by (simp add: cell_value_Nil)
next
  case (Cons h rows)
  then show ?thesis by (cases h) (simp_all add: cell_value_first_row)
qed

lemma list_ex_pad: "\<not> P x \<Longrightarrow> list_ex P (pad n x xs) = list_ex P xs"
  by (auto simp add: pad_def list_ex_iff)

lemma headers_has_jamdown:
  "list_ex (\<lambda>c. startswith (str_or_empty c) ''JamDown '')
     (map (cell_value (h # rows) 1) [1 ..< max_column (h # rows) + 1]) = has_jamdown h"
  unfolding headers_eq_pad has_jamdown_def
  by (rule list_ex_pad) (simp add: str_or_empty_def)

lemma max_row_ge1: "Suc 0 \<le> max_row ws"
  by (simp add: max_row_def)

lemma ensure_try_missing: "xlsx_file f = None \<Longrightarrow> ensure_workbook_try f = Inr None"
  by (simp add: ensure_workbook_try_def)

lemma ensure_try_corrupt:
  "xlsx_file f = Some Corrupt \<Longrightarrow> ensure_workbook_try f = Inl InvalidFileException"
  by (simp add: ensure_workbook_try_def load_workbook_def)

lemma ensure_try_other:
  "xlsx_file f = Some (Book ws) \<Longrightarrow> cell_value ws 1 1 \<noteq> CStr ''Tanggal'' \<Longrightarrow>
   ensure_workbook_try f = Inr None"
  by (simp add: ensure_workbook_try_def load_workbook_def)

lemma ensure_try_current:
  "xlsx_file f = Some (Book (h # rows)) \<Longrightarrow> h \<noteq> [] \<Longrightarrow> hd h = CStr ''Tanggal'' \<Longrightarrow>
   has_jamdown h \<Longrightarrow> ensure_workbook_try f = Inr (Some (f, ''xlsx''))"
  using tanggal_first [of "h # rows"] headers_has_jamdown [of h rows]
  by (simp add: ensure_workbook_try_def load_workbook_def max_row_ge1 del: upt_Suc)

lemma ensure_try_legacy:
  "xlsx_file f = Some (Book (h # rows)) \<Longrightarrow> h \<noteq> [] \<Longrightarrow> hd h = CStr ''Tanggal'' \<Longrightarrow>
   \<not> has_jamdown h \<Longrightarrow>
   ensure_workbook_try f =
     Inr (Some (f\<lparr>xlsx_file := Some (Book
        ((pad (max_column (h # rows)) CNone h @ map (\<lambda>n. CStr (''JamDown '' @ n)) REKAP_ORDER)
           # rows))\<rparr>, ''xlsx''))"
  using tanggal_first [of "h # rows"] headers_has_jamdown [of h rows]
  by (simp add: ensure_workbook_try_def load_workbook_def max_row_ge1 add_jamdown_headers_eq
        del: upt_Suc)

lemma ensure_xlsx_fresh:
  assumes "xlsx_file f = None \<or> xlsx_file f = Some Corrupt
           \<or> (\<exists>ws. xlsx_file f = Some (Book ws) \<and> cell_value ws 1 1 \<noteq> CStr ''Tanggal'')"
  shows "ensure_workbook True f = (f\<lparr>xlsx_file := Some (Book [header_row])\<rparr>, ''xlsx'')"
proof -
  from assms have "ensure_workbook_try f = Inr None
      \<or> ensure_workbook_try f = Inl InvalidFileException"
    using ensure_try_missing ensure_try_corrupt ensure_try_other by blast
  then show ?thesis by (auto simp add: ensure_workbook_def)
qed

lemma ensure_xlsx_current:
  "xlsx_file f = Some (Book (h # rows)) \<Longrightarrow> h \<noteq> [] \<Longrightarrow> hd h = CStr ''Tanggal'' \<Longrightarrow>
   has_jamdown h \<Longrightarrow> ensure_workbook True f = (f, ''xlsx'')"
  by (simp add: ensure_workbook_def ensure_try_current)

lemma ensure_xlsx_legacy:
  "xlsx_file f = Some (Book (h # rows)) \<Longrightarrow> h \<noteq> [] \<Longrightarrow> hd h = CStr ''Tanggal'' \<Longrightarrow>
   \<not> has_jamdown h \<Longrightarrow>
   ensure_workbook True f =
     (f\<lparr>xlsx_file := Some (Book
        ((pad (max_column (h # rows)) CNone h @ map (\<lambda>n. CStr (''JamDown '' @ n)) REKAP_ORDER)
           # rows))\<rparr>, ''xlsx'')"
  by (simp add: ensure_workbook_def ensure_try_legacy)

lemma ensure_csv:
  "ensure_workbook False f =
     (if csv_file f = None then f\<lparr>csv_file := Some [map csv_text header_row]\<rparr> else f, ''csv'')"
  by (simp add: ensure_workbook_def)

lemma has_jamdown_header_row: "has_jamdown header_row"
  by (simp add: has_jamdown_def header_row_def REKAP_ORDER_def str_or_empty_def)

lemma hd_header_row: "header_row \<noteq> [] \<and> hd header_row = CStr ''Tanggal''"
  by (simp add: header_row_def)

lemma has_jamdown_added:
  "has_jamdown (pad M CNone h @ map (\<lambda>n. CStr (''JamDown '' @ n)) REKAP_ORDER)"
  by (simp add: has_jamdown_def REKAP_ORDER_def str_or_empty_def)

lemma hd_pad_append: "h \<noteq> [] \<Longrightarrow> hd (pad M x h @ ys) = hd h \<and> pad M x h @ ys \<noteq> []"
  by (cases h) (simp_all add: pad_def)

text \<open>The three ways the Excel branch ends, each with a current header in the file.\<close>

lemma ensure_xlsx_cases:
  obtains (fresh) "ensure_workbook True f = (f\<lparr>xlsx_file := Some (Book [header_row])\<rparr>, ''xlsx'')"
      "xlsx_file f = None \<or> xlsx_file f = Some Corrupt
           \<or> (\<exists>ws. xlsx_file f = Some (Book ws) \<and> cell_value ws 1 1 \<noteq> CStr ''Tanggal'')"
  | (current) h rows where "xlsx_file f = Some (Book (h # rows))" "h \<noteq> []"
      "hd h = CStr ''Tanggal''" "has_jamdown h" "ensure_workbook True f = (f, ''xlsx'')"
  | (legacy) h rows where "xlsx_file f = Some (Book (h # rows))" "h \<noteq> []"
      "hd h = CStr ''Tanggal''" "\<not> has_jamdown h"
      "ensure_workbook True f =
        (f\<lparr>xlsx_file := Some (Book
          ((pad (max_column (h # rows)) CNone h @ map (\<lambda>n. CStr (''JamDown '' @ n)) REKAP_ORDER)
             # rows))\<rparr>, ''xlsx'')"
proof (cases "xlsx_file f")
  case None
  then show ?thesis using fresh ensure_xlsx_fresh by blast
next
  case (Some xf)
  show ?thesis
  proof (cases xf)
    case Corrupt
    with Some show ?thesis using fresh ensure_xlsx_fresh by blast
  next
    case (Book ws)
    show ?thesis
    proof (cases "cell_value ws 1 1 = CStr ''Tanggal''")
      case False
      with Some Book show ?thesis using fresh ensure_xlsx_fresh by blast
    next
      case True
      then obtain h rows where ws: "ws = h # rows" "h \<noteq> []" "hd h = CStr ''Tanggal''"
        using tanggal_first by blast
      show ?thesis
      proof (cases "has_jamdown h")
        case True
        with Some Book ws show ?thesis using current ensure_xlsx_current by blast
      next
        case False
        with Some Book ws show ?thesis using legacy ensure_xlsx_legacy by blast
      qed
    qed
  qed
qed

lemma ensure_xlsx_result:
  "\<exists>h rows. ensure_workbook True f = (f\<lparr>xlsx_file := Some (Book (h # rows))\<rparr>, ''xlsx'')
     \<and> h \<noteq> [] \<and> hd h = CStr ''Tanggal'' \<and> has_jamdown h"
proof (cases f rule: ensure_xlsx_cases)
  case fresh
  then show ?thesis using has_jamdown_header_row hd_header_row by blast
next
  case (current h rows)
  then have "f\<lparr>xlsx_file := Some (Book (h # rows))\<rparr> = f" by simp
  with current show ?thesis by metis
next
  case (legacy h rows)
  then show ?thesis using has_jamdown_added hd_pad_append by metis
qed

lemma ensure_mode: "snd (ensure_workbook x f) = (if x then ''xlsx'' else ''csv'')"
  using ensure_xlsx_result [of f] by (cases x) (auto simp add: ensure_csv)

text \<open>Running ensure_workbook a second time changes nothing.\<close>

lemma ensure_workbook_idempotent:
  "ensure_workbook x (fst (ensure_workbook x f)) = ensure_workbook x f"
proof (cases x)
  case True
  obtain h rows where r: "ensure_workbook True f = (f\<lparr>xlsx_file := Some (Book (h # rows))\<rparr>, ''xlsx'')"
    "h \<noteq> []" "hd h = CStr ''Tanggal''" "has_jamdown h"
    using ensure_xlsx_result by blast
  have "ensure_workbook True (f\<lparr>xlsx_file := Some (Book (h # rows))\<rparr>)
          = (f\<lparr>xlsx_file := Some (Book (h # rows))\<rparr>, ''xlsx'')"
    using r(2-4) by (intro ensure_xlsx_current) simp_all
  then show ?thesis by (simp add: True r(1))
next
  case False
  then show ?thesis by (simp add: ensure_csv)
qed

subsection \<open>write_rekap\<close>

lemma write_rekap_xlsx:
  assumes "ensure_workbook True f = (f\<lparr>xlsx_file := Some (Book ws)\<rparr>, ''xlsx'')"
  shows "write_rekap True today counters jam_map f
           = f\<lparr>xlsx_file := Some (Book (ws @ [rekap_row today counters jam_map]))\<rparr>"
  by (simp add: write_rekap_def assms load_workbook_def)

lemma write_rekap_csv:
  "write_rekap False today counters jam_map f =
     f\<lparr>csv_file := Some ((case csv_file f of None \<Rightarrow> [map csv_text header_row] | Some rows \<Rightarrow> rows)
            @ [map csv_text (rekap_row today counters jam_map)])\<rparr>"
  by (cases "csv_file f") (simp_all add: write_rekap_def ensure_csv csv_append_def)

lemma write_rekap_rows:
  "report_rows x (write_rekap x today counters jam_map f)
     = report_rows x (fst (ensure_workbook x f)) @ [map csv_text (rekap_row today counters jam_map)]"
proof (cases x)
  case True
  obtain h rows where r: "ensure_workbook True f = (f\<lparr>xlsx_file := Some (Book (h # rows))\<rparr>, ''xlsx'')"
    using ensure_xlsx_result by blast
  show ?thesis
    by (simp add: True write_rekap_xlsx [OF r] r report_rows_def)
next
  case False
  then show ?thesis
    by (cases "csv_file f") (simp_all add: write_rekap_csv ensure_csv report_rows_def)
qed

text \<open>Once written to, the file is one that ensure_workbook keeps as it is.\<close>

lemma ensure_after_write:
  "ensure_workbook x (write_rekap x today counters jam_map f)
     = (write_rekap x today counters jam_map f, if x then ''xlsx'' else ''csv'')"
proof (cases x)
  case True
  obtain h rows where r: "ensure_workbook True f = (f\<lparr>xlsx_file := Some (Book (h # rows))\<rparr>, ''xlsx'')"
    "h \<noteq> []" "hd h = CStr ''Tanggal''" "has_jamdown h"
    using ensure_xlsx_result by blast
  have "ensure_workbook True (f\<lparr>xlsx_file := Some (Book ((h # rows) @ [rekap_row today counters jam_map]))\<rparr>)
        = (f\<lparr>xlsx_file := Some (Book ((h # rows) @ [rekap_row today counters jam_map]))\<rparr>, ''xlsx'')"
    using r(2-4) by (intro ensure_xlsx_current) simp_all
  then show ?thesis by (simp add: True write_rekap_xlsx [OF r(1)])
next
  case False
  then show ?thesis by (simp add: write_rekap_csv ensure_csv)
qed

text \<open>The row written for the monitor's counters.\<close>

lemma rekap_row_monitor:
  "rekap_row today (as_dict target_names (down_counter m)) (Some (as_dict target_names (down_times m)))
     = [CStr (strftime_dmY today)] @ map (\<lambda>n. CInt (down_counter m n)) REKAP_ORDER
         @ map (\<lambda>n. CStr (join '';'' (down_times m n))) REKAP_ORDER"
  by (simp add: rekap_row_def as_dict_def target_names_eq)

lemma reset_counters_last_rekap_day:
  "reset_counters (m\<lparr>last_rekap_day := d\<rparr>) = (reset_counters m)\<lparr>last_rekap_day := d\<rparr>"
  by (rule monitor.equality) (simp_all add: reset_counters_fields fun_eq_iff)

subsection \<open>The scheduler and the manual recap\<close>

lemma csv_text_row:
  "map csv_text ([CStr d] @ map (\<lambda>n. CInt (c n)) ns @ map (\<lambda>n. CStr (t n)) ns)
     = [d] @ map (\<lambda>n. py_str (c n)) ns @ map t ns"
  by (simp add: csv_text_def comp_def)

lemma sunday_no_boundary: "weekday (dt_date now) = 6 \<Longrightarrow> \<not> boundary now"
  by (simp add: boundary_def)

lemma schedule_same_day:
  "last_rekap_day (fst w) = Some (dt_date now) \<Longrightarrow> schedule_rekap_if_needed x now w = w"
  by (simp add: schedule_eq)

lemma rekap_now_last_rekap_day:
  "last_rekap_day (fst (rekap_now x now w)) = Some (dt_date now)"
  by (simp add: rekap_now_eq)

lemma reset_rows:
  "map (\<lambda>n. CInt (down_counter (reset_counters m) n)) REKAP_ORDER = map (\<lambda>n. CInt 0) REKAP_ORDER"
  "map (\<lambda>n. CStr (join '';'' (down_times (reset_counters m) n))) REKAP_ORDER
     = map (\<lambda>n. CStr []) REKAP_ORDER"
  by (simp_all add: reset_counters_fields target_names_eq)

text \<open>
  C5. The scheduled recap, in the window and in the headless loop alike, fires exactly
  when the local time is 15:30 on a weekday from Monday to Friday or 13:30 on a Saturday,
  and the date of the last recap differs from today; it never fires on a Sunday. When it
  fires it appends to the report one row made of today's date and the current counts and
  timestamps, sets every target's count to 0 and empties its timestamps, and records today
  as the date of the last recap; a second call on the same day then changes nothing.
\<close>

theorem C5_scheduled_recap:
  "schedule_rekap_if_needed x now (m, f) =
     (if boundary now \<and> last_rekap_day m \<noteq> Some (dt_date now)
      then ((reset_counters m)\<lparr>last_rekap_day := Some (dt_date now)\<rparr>,
            write_rekap x (dt_date now) (as_dict target_names (down_counter m))
              (Some (as_dict target_names (down_times m))) f)
      else (m, f))
   \<and> headless_schedule_rekap_if_needed x now (m, f) = schedule_rekap_if_needed x now (m, f)
   \<and> (weekday (dt_date now) = 6 \<longrightarrow> schedule_rekap_if_needed x now (m, f) = (m, f))
   \<and> report_rows x (write_rekap x (dt_date now) (as_dict target_names (down_counter m))
          (Some (as_dict target_names (down_times m))) f)
        = report_rows x (fst (ensure_workbook x f))
            @ [[strftime_dmY (dt_date now)] @ map (\<lambda>n. py_str (down_counter m n)) REKAP_ORDER
                 @ map (\<lambda>n. join '';'' (down_times m n)) REKAP_ORDER]
   \<and> (\<forall>n \<in> set target_names.
          down_counter (reset_counters m) n = 0 \<and> down_times (reset_counters m) n = [])
   \<and> (boundary now \<and> last_rekap_day m \<noteq> Some (dt_date now) \<and> dt_date later = dt_date now \<longrightarrow>
          schedule_rekap_if_needed x later (schedule_rekap_if_needed x now (m, f))
            = schedule_rekap_if_needed x now (m, f))"
proof (intro conjI impI)
  show "schedule_rekap_if_needed x now (m, f) =
     (if boundary now \<and> last_rekap_day m \<noteq> Some (dt_date now)
      then ((reset_counters m)\<lparr>last_rekap_day := Some (dt_date now)\<rparr>,
            write_rekap x (dt_date now) (as_dict target_names (down_counter m))
              (Some (as_dict target_names (down_times m))) f)
      else (m, f))"
    by (simp add: schedule_eq rekap_now_eq)
  show "headless_schedule_rekap_if_needed x now (m, f) = schedule_rekap_if_needed x now (m, f)"
    by (rule headless_schedule_eq)
  show "report_rows x (write_rekap x (dt_date now) (as_dict target_names (down_counter m))
          (Some (as_dict target_names (down_times m))) f)
        = report_rows x (fst (ensure_workbook x f))
            @ [[strftime_dmY (dt_date now)] @ map (\<lambda>n. py_str (down_counter m n)) REKAP_ORDER
                 @ map (\<lambda>n. join '';'' (down_times m n)) REKAP_ORDER]"
    unfolding write_rekap_rows rekap_row_monitor csv_text_row by (rule refl)
  show "\<forall>n \<in> set target_names.
          down_counter (reset_counters m) n = 0 \<and> down_times (reset_counters m) n = []"
    by (simp add: reset_counters_fields)
next
  assume "weekday (dt_date now) = 6"
  then show "schedule_rekap_if_needed x now (m, f) = (m, f)"
    using sunday_no_boundary [of now] by (simp add: schedule_eq)
next
  assume a: "boundary now \<and> last_rekap_day m \<noteq> Some (dt_date now) \<and> dt_date later = dt_date now"
  then have "schedule_rekap_if_needed x now (m, f) = rekap_now x now (m, f)"
    by (simp add: schedule_eq)
  moreover have "last_rekap_day (fst (rekap_now x now (m, f))) = Some (dt_date later)"
    using a by (simp add: rekap_now_last_rekap_day)
  ultimately show "schedule_rekap_if_needed x later (schedule_rekap_if_needed x now (m, f))
            = schedule_rekap_if_needed x now (m, f)"
    by (simp add: schedule_same_day)
qed

text \<open>
  C1, as amended. The manual recap appends the same row and runs the same reset as a
  scheduled recap that fires, and it never consults the date of the last recap; but it
  does record today as that date. So after a manual recap the scheduled recap does not
  fire any more on that day. The other order does write twice: a manual recap after
  the scheduled one appends a second row for the same date.
\<close>

theorem C1_manual_flush_sets_last_rekap_day:
  "rekap_now x now (m, f)
     = ((reset_counters m)\<lparr>last_rekap_day := Some (dt_date now)\<rparr>,
        write_rekap x (dt_date now) (as_dict target_names (down_counter m))
          (Some (as_dict target_names (down_times m))) f)
   \<and> (boundary now \<and> last_rekap_day m \<noteq> Some (dt_date now) \<longrightarrow>
        schedule_rekap_if_needed x now (m, f) = rekap_now x now (m, f))
   \<and> rekap_now x now (m\<lparr>last_rekap_day := d\<rparr>, f) = rekap_now x now (m, f)
   \<and> last_rekap_day (fst (rekap_now x now (m, f))) = Some (dt_date now)
   \<and> (dt_date later = dt_date now \<longrightarrow>
        schedule_rekap_if_needed x later (rekap_now x now (m, f)) = rekap_now x now (m, f))
   \<and> (boundary now \<and> last_rekap_day m \<noteq> Some (dt_date now) \<and> dt_date later = dt_date now \<longrightarrow>
        report_rows x (snd (rekap_now x later (schedule_rekap_if_needed x now (m, f))))
          = report_rows x (fst (ensure_workbook x f))
              @ [[strftime_dmY (dt_date now)] @ map (\<lambda>n. py_str (down_counter m n)) REKAP_ORDER
                   @ map (\<lambda>n. join '';'' (down_times m n)) REKAP_ORDER,
                 [strftime_dmY (dt_date now)] @ map (\<lambda>n. py_str 0) REKAP_ORDER
                   @ map (\<lambda>n. []) REKAP_ORDER])"
proof (intro conjI impI)
  show "rekap_now x now (m, f)
     = ((reset_counters m)\<lparr>last_rekap_day := Some (dt_date now)\<rparr>,
        write_rekap x (dt_date now) (as_dict target_names (down_counter m))
          (Some (as_dict target_names (down_times m))) f)"
    by (simp add: rekap_now_eq)
  show "rekap_now x now (m\<lparr>last_rekap_day := d\<rparr>, f) = rekap_now x now (m, f)"
    by (simp add: rekap_now_eq reset_counters_last_rekap_day)
  show "last_rekap_day (fst (rekap_now x now (m, f))) = Some (dt_date now)"
    by (rule rekap_now_last_rekap_day)
next
  assume "boundary now \<and> last_rekap_day m \<noteq> Some (dt_date now)"
  then show "schedule_rekap_if_needed x now (m, f) = rekap_now x now (m, f)"
    by (simp add: schedule_eq)
next
  assume "dt_date later = dt_date now"
  then have "last_rekap_day (fst (rekap_now x now (m, f))) = Some (dt_date later)"
    by (simp add: rekap_now_last_rekap_day)
  then show "schedule_rekap_if_needed x later (rekap_now x now (m, f)) = rekap_now x now (m, f)"
    by (rule schedule_same_day)
next
  assume a: "boundary now \<and> last_rekap_day m \<noteq> Some (dt_date now) \<and> dt_date later = dt_date now"
  let ?f1 = "write_rekap x (dt_date now) (as_dict target_names (down_counter m))
          (Some (as_dict target_names (down_times m))) f"
  let ?m1 = "(reset_counters m)\<lparr>last_rekap_day := Some (dt_date now)\<rparr>"
  have s: "schedule_rekap_if_needed x now (m, f) = (?m1, ?f1)"
    using a by (simp add: schedule_eq rekap_now_eq)
  have r1: "report_rows x ?f1 = report_rows x (fst (ensure_workbook x f))
              @ [[strftime_dmY (dt_date now)] @ map (\<lambda>n. py_str (down_counter m n)) REKAP_ORDER
                   @ map (\<lambda>n. join '';'' (down_times m n)) REKAP_ORDER]"
    unfolding write_rekap_rows rekap_row_monitor csv_text_row by (rule refl)
  have row2: "map csv_text (rekap_row (dt_date later)
          (as_dict target_names (down_counter (reset_counters m)))
          (Some (as_dict target_names (down_times (reset_counters m)))))
        = [strftime_dmY (dt_date now)] @ map (\<lambda>n. py_str 0) REKAP_ORDER @ map (\<lambda>n. []) REKAP_ORDER"
  proof -
    have "rekap_row (dt_date later) (as_dict target_names (down_counter (reset_counters m)))
            (Some (as_dict target_names (down_times (reset_counters m))))
          = [CStr (strftime_dmY (dt_date later))]
              @ map (\<lambda>n. CInt (down_counter (reset_counters m) n)) REKAP_ORDER
              @ map (\<lambda>n. CStr (join '';'' (down_times (reset_counters m) n))) REKAP_ORDER"
      by (rule rekap_row_monitor)
    also have "\<dots> = [CStr (strftime_dmY (dt_date now))] @ map (\<lambda>n. CInt 0) REKAP_ORDER
              @ map (\<lambda>n. CStr []) REKAP_ORDER"
      using a by (simp add: reset_rows)
    finally show ?thesis by (simp add: csv_text_def comp_def)
  qed
  have "report_rows x (snd (rekap_now x later (?m1, ?f1)))
          = report_rows x (fst (ensure_workbook x ?f1))
              @ [[strftime_dmY (dt_date now)] @ map (\<lambda>n. py_str 0) REKAP_ORDER @ map (\<lambda>n. []) REKAP_ORDER]"
    by (simp add: rekap_now_eq write_rekap_rows row2 del: append.simps)
  then show "report_rows x (snd (rekap_now x later (schedule_rekap_if_needed x now (m, f))))
          = report_rows x (fst (ensure_workbook x f))
              @ [[strftime_dmY (dt_date now)] @ map (\<lambda>n. py_str (down_counter m n)) REKAP_ORDER
                   @ map (\<lambda>n. join '';'' (down_times m n)) REKAP_ORDER,
                 [strftime_dmY (dt_date now)] @ map (\<lambda>n. py_str 0) REKAP_ORDER
                   @ map (\<lambda>n. []) REKAP_ORDER]"
    unfolding s by (simp add: ensure_after_write r1 del: append.simps)
qed

subsection \<open>The claims on recaps at concrete inputs\<close>

lemma sunday: "weekday (dt_date sun_1530) = 6"
  by (simp add: sun_1530_def weekday_def toordinal_def days_before_year_def
        days_before_month_def is_leap_def)

lemma wed_text: "strftime_dmY (dt_date wed_1530) = ''04/11/2026''"
  by code_simp

lemma zero_text: "py_str 0 = ''0''"
  by code_simp

lemma empty_disk_rows: "report_rows False (fst (ensure_workbook False no_files)) = [map csv_text header_row]"
  by (simp add: ensure_csv no_files_def report_rows_def)

lemma header_text:
  "map csv_text header_row =
     [''Tanggal'', ''Down Server'', ''Down Desktop'', ''Down HP'', ''Down Mitraskon'',
      ''Down Mitralindo'', ''Down Trekons'', ''JamDown Server'', ''JamDown Desktop'',
      ''JamDown HP'', ''JamDown Mitraskon'', ''JamDown Mitralindo'', ''JamDown Trekons'']"
  by (simp add: header_row_def REKAP_ORDER_def csv_text_def)

theorem C5_scheduled_recap_witness:
  "boundary wed_1530
   \<and> last_rekap_day init_monitor \<noteq> Some (dt_date wed_1530)
   \<and> dt_date wed_1600 = dt_date wed_1530
   \<and> last_rekap_day (fst (schedule_rekap_if_needed False wed_1530 (init_monitor, no_files)))
       = Some (dt_date wed_1530)
   \<and> report_rows False (snd (schedule_rekap_if_needed False wed_1530 (init_monitor, no_files)))
       = [map csv_text header_row,
          [''04/11/2026'', ''0'', ''0'', ''0'', ''0'', ''0'', ''0'', [], [], [], [], [], []]]
   \<and> schedule_rekap_if_needed False wed_1600
         (schedule_rekap_if_needed False wed_1530 (init_monitor, no_files))
       = schedule_rekap_if_needed False wed_1530 (init_monitor, no_files)
   \<and> weekday (dt_date sun_1530) = 6
   \<and> schedule_rekap_if_needed False sun_1530 (init_monitor, no_files) = (init_monitor, no_files)"
proof -
  let ?w = "schedule_rekap_if_needed False wed_1530 (init_monitor, no_files)"
  note A = C5_scheduled_recap [of False wed_1530 init_monitor no_files wed_1600]
  note B = C5_scheduled_recap [of False sun_1530 init_monitor no_files wed_1600]
  have n: "last_rekap_day init_monitor \<noteq> Some (dt_date wed_1530)"
    by (simp add: init_monitor_def)
  have z: "down_counter init_monitor = (\<lambda>n. 0)" "down_times init_monitor = (\<lambda>n. [])"
    by (simp_all add: init_monitor_def)
  have f: "?w = ((reset_counters init_monitor)\<lparr>last_rekap_day := Some (dt_date wed_1530)\<rparr>,
        write_rekap False (dt_date wed_1530) (as_dict target_names (down_counter init_monitor))
          (Some (as_dict target_names (down_times init_monitor))) no_files)"
    using A [THEN conjunct1] boundary_wed_1530 n by simp
  have lrd: "last_rekap_day (fst ?w) = Some (dt_date wed_1530)"
    by (simp add: f)
  have rows: "report_rows False (snd ?w)
       = [map csv_text header_row,
          [''04/11/2026'', ''0'', ''0'', ''0'', ''0'', ''0'', ''0'', [], [], [], [], [], []]]"
    unfolding f using A [THEN conjunct2, THEN conjunct2, THEN conjunct2, THEN conjunct1]
    by (simp add: empty_disk_rows wed_text zero_text z REKAP_ORDER_def)
  have again: "schedule_rekap_if_needed False wed_1600 ?w = ?w"
    using A [THEN conjunct2, THEN conjunct2, THEN conjunct2, THEN conjunct2, THEN conjunct2]
      boundary_wed_1530 n same_day(2) by blast
  have sun: "schedule_rekap_if_needed False sun_1530 (init_monitor, no_files) = (init_monitor, no_files)"
    using B [THEN conjunct2, THEN conjunct2, THEN conjunct1] sunday by blast
  show ?thesis
    by (intro conjI boundary_wed_1530 n same_day(2) lrd rows again sunday sun)
qed

text \<open>
  C1 as stated fails. From an empty output directory, a manual recap on Wednesday at 10:00
  sets the date of the last recap, which was unset; the scheduled boundary at 15:30 of the
  same day then leaves monitor and files as they are, and the report holds the header and
  the single row of the manual recap.
\<close>

theorem C1_manual_then_scheduled_counterexample:
  "boundary wed_1530
   \<and> dt_date wed_1530 = dt_date wed_1000
   \<and> last_rekap_day init_monitor = None
   \<and> last_rekap_day (fst (rekap_now False wed_1000 (init_monitor, no_files)))
       = Some (dt_date wed_1000)
   \<and> schedule_rekap_if_needed False wed_1530 (rekap_now False wed_1000 (init_monitor, no_files))
       = rekap_now False wed_1000 (init_monitor, no_files)
   \<and> length (report_rows False (snd (schedule_rekap_if_needed False wed_1530
         (rekap_now False wed_1000 (init_monitor, no_files))))) = 2"
proof -
  have d: "last_rekap_day (fst (rekap_now False wed_1000 (init_monitor, no_files)))
       = Some (dt_date wed_1530)"
    by (simp add: rekap_now_last_rekap_day same_day)
  have s: "schedule_rekap_if_needed False wed_1530 (rekap_now False wed_1000 (init_monitor, no_files))
       = rekap_now False wed_1000 (init_monitor, no_files)"
    using d by (rule schedule_same_day)
  have l: "length (report_rows False (snd (rekap_now False wed_1000 (init_monitor, no_files)))) = 2"
    by (simp add: rekap_now_eq write_rekap_rows empty_disk_rows)
  show ?thesis
    using boundary_wed_1530 d s l by (simp add: same_day init_monitor_def)
qed

theorem C1_manual_flush_sets_last_rekap_day_witness:
  "boundary wed_1530
   \<and> last_rekap_day init_monitor \<noteq> Some (dt_date wed_1530)
   \<and> dt_date wed_1600 = dt_date wed_1530
   \<and> schedule_rekap_if_needed False wed_1530 (init_monitor, no_files)
       = rekap_now False wed_1530 (init_monitor, no_files)
   \<and> schedule_rekap_if_needed False wed_1600 (rekap_now False wed_1530 (init_monitor, no_files))
       = rekap_now False wed_1530 (init_monitor, no_files)
   \<and> report_rows False (snd (rekap_now False wed_1600
         (schedule_rekap_if_needed False wed_1530 (init_monitor, no_files))))
       = [map csv_text header_row,
          [''04/11/2026'', ''0'', ''0'', ''0'', ''0'', ''0'', ''0'', [], [], [], [], [], []],
          [''04/11/2026'', ''0'', ''0'', ''0'', ''0'', ''0'', ''0'', [], [], [], [], [], []]]"
proof -
  note A = C1_manual_flush_sets_last_rekap_day
    [of False wed_1530 init_monitor no_files None wed_1600]
  have n: "last_rekap_day init_monitor \<noteq> Some (dt_date wed_1530)"
    by (simp add: init_monitor_def)
  have z: "down_counter init_monitor = (\<lambda>n. 0)" "down_times init_monitor = (\<lambda>n. [])"
    by (simp_all add: init_monitor_def)
  have same: "schedule_rekap_if_needed False wed_1530 (init_monitor, no_files)
       = rekap_now False wed_1530 (init_monitor, no_files)"
    using A [THEN conjunct2, THEN conjunct1] boundary_wed_1530 n by blast
  have suppressed: "schedule_rekap_if_needed False wed_1600
         (rekap_now False wed_1530 (init_monitor, no_files))
       = rekap_now False wed_1530 (init_monitor, no_files)"
    using A [THEN conjunct2, THEN conjunct2, THEN conjunct2, THEN conjunct2, THEN conjunct1]
      same_day(2) by blast
  have "report_rows False (snd (rekap_now False wed_1600
         (schedule_rekap_if_needed False wed_1530 (init_monitor, no_files))))
       = report_rows False (fst (ensure_workbook False no_files))
              @ [[strftime_dmY (dt_date wed_1530)]
                   @ map (\<lambda>n. py_str (down_counter init_monitor n)) REKAP_ORDER
                   @ map (\<lambda>n. join '';'' (down_times init_monitor n)) REKAP_ORDER,
                 [strftime_dmY (dt_date wed_1530)] @ map (\<lambda>n. py_str 0) REKAP_ORDER
                   @ map (\<lambda>n. []) REKAP_ORDER]"
    using A [THEN conjunct2, THEN conjunct2, THEN conjunct2, THEN conjunct2, THEN conjunct2]
      boundary_wed_1530 n same_day(2) by blast
  then have rows: "report_rows False (snd (rekap_now False wed_1600
         (schedule_rekap_if_needed False wed_1530 (init_monitor, no_files))))
       = [map csv_text header_row,
          [''04/11/2026'', ''0'', ''0'', ''0'', ''0'', ''0'', ''0'', [], [], [], [], [], []],
          [''04/11/2026'', ''0'', ''0'', ''0'', ''0'', ''0'', ''0'', [], [], [], [], [], []]]"
    by (simp add: empty_disk_rows wed_text zero_text z REKAP_ORDER_def)
  show ?thesis
    by (intro conjI boundary_wed_1530 n same_day(2) same suppressed rows)
qed

subsection \<open>Decimal text of an int, read back\<close>













subsection \<open>Reading\<close>


























subsection \<open>The claims on the report file at concrete inputs\<close>


text \<open>
  C8, evaluated where it fails. Without openpyxl, ensure_workbook leaves a CSV file with the
  old header as it is: no JamDown column is added to the header, and the next recap puts
  thirteen cells under the seven old column names. With openpyxl, the same data in a
  workbook gets the six JamDown columns added to its header and keeps its row. What the
  claim says besides holds in both backends: \<open>ensure_workbook_idempotent\<close>,
  \<open>ensure_xlsx_current\<close>, \<open>ensure_xlsx_legacy\<close>, \<open>ensure_csv\<close>.
\<close>

theorem C8_csv_legacy_header_kept:
  "ensure_workbook False legacy_csv = (legacy_csv, ''csv'')
   \<and> csv_file (write_rekap False (dt_date wed_1000) three_and_one None legacy_csv)
     = Some
        [[''Tanggal'', ''Down Server'', ''Down Desktop'', ''Down HP'', ''Down Mitraskon'',
          ''Down Mitralindo'', ''Down Trekons''],
         [''03/11/2026'', ''1'', ''0'', ''0'', ''0'', ''0'', ''0''],
         [''04/11/2026'', ''3'', ''1'', ''0'', ''0'', ''0'', ''0'', [], [], [], [], [], []]]
   \<and> xlsx_file (fst (ensure_workbook True legacy_xlsx))
     = Some (Book
        [[CStr ''Tanggal'', CStr ''Down Server'', CStr ''Down Desktop'', CStr ''Down HP'',
          CStr ''Down Mitraskon'', CStr ''Down Mitralindo'', CStr ''Down Trekons'',
          CStr ''JamDown Server'', CStr ''JamDown Desktop'', CStr ''JamDown HP'',
          CStr ''JamDown Mitraskon'', CStr ''JamDown Mitralindo'', CStr ''JamDown Trekons''],
         [CStr ''03/11/2026'', CInt 1, CInt 0, CInt 0, CInt 0, CInt 0, CInt 0]])"
  by code_simp




end
